theory Spec2Isabelle
  imports Complex_Main "HOL-Library.Multiset"
begin

section \<open>Numbers and DOM geometry\<close>

text \<open>
  The overlay engine computes with JavaScript numbers. They are modelled as \<open>real\<close>:
  every value the engine reads is a pixel size, a pointer coordinate or a scale factor,
  and the arithmetic below is sums, products, halving, \<open>Math.min\<close> and \<open>Math.max\<close>.
  The operations are given in exact arithmetic; the bounds calculator is given a second
  time with the rounding of binary64 after every operation. \<open>NaN\<close> and the infinities
  have no counterpart in the model.

  The operator \<open>a || b\<close> on numbers yields \<open>b\<close> when \<open>a\<close> is falsy, that is \<open>0\<close>.
\<close>

definition js_or :: "real \<Rightarrow> real \<Rightarrow> real" where
  "js_or a b = (if a = 0 then b else a)"

definition ZOOM_MIN_SCALE :: real where
  "ZOOM_MIN_SCALE = 1 / 10"

definition ZOOM_MAX_SCALE :: real where
  "ZOOM_MAX_SCALE = 5"

definition DEFAULT_SCALE :: real where
  "DEFAULT_SCALE = 1"

definition DEFAULT_DROPZONE_WIDTH :: real where
  "DEFAULT_DROPZONE_WIDTH = 800"

definition DEFAULT_DROPZONE_HEIGHT :: real where
  "DEFAULT_DROPZONE_HEIGHT = 600"

record transform =
  tx :: real
  ty :: real
  tscale :: real

record point =
  px :: real
  py :: real

record dims =
  width :: real
  height :: real

record bounds =
  minX :: real
  maxX :: real
  minY :: real
  maxY :: real

definition BOUNDS_FALLBACK :: bounds where
  "BOUNDS_FALLBACK = \<lparr>minX = - 10000, maxX = 10000, minY = - 10000, maxY = 10000\<rparr>"

text \<open>
  A DOM element as the engine reads it: its layout size, the origin of its bounding
  client rectangle and its \<open>data-layer-id\<close> attribute (absent on most elements).
\<close>

record element =
  offsetWidth :: real
  offsetHeight :: real
  rectLeft :: real
  rectTop :: real
  datasetLayerId :: "string option"

text \<open>
  The document, as far as the engine looks elements up in it:
  \<open>getElementById('overlayImage')\<close>, \<open>getElementById('imageDropzone')\<close> and
  \<open>querySelector('.chat-overlay-container')\<close>; a missing element is \<open>None\<close>.
\<close>

record dom =
  overlayImage :: "element option"
  imageDropzone :: "element option"
  chatOverlayContainer :: "element option"

section \<open>The overlay state\<close>

record overlay_state =
  imageTransform :: transform
  isImageDraggingEnabled :: bool
  displayDimensions :: dims
  basePosition :: point
  chatTransform :: transform
  isChatDraggingEnabled :: bool
  lineTransforms :: "nat \<rightharpoonup> point"
  snapEnabled :: bool
  snapThreshold :: real
  dropZoneWidth :: real
  dropZoneHeight :: real
  domCache_dropzone :: "element option"

text \<open>The state object as the module creates it, before \<open>init\<close> runs.\<close>

definition ImageOverlayState :: overlay_state where
  "ImageOverlayState =
     \<lparr>imageTransform = \<lparr>tx = 0, ty = 0, tscale = DEFAULT_SCALE\<rparr>,
      isImageDraggingEnabled = True,
      displayDimensions = \<lparr>width = 0, height = 0\<rparr>,
      basePosition = \<lparr>px = 0, py = 0\<rparr>,
      chatTransform = \<lparr>tx = 0, ty = 0, tscale = DEFAULT_SCALE\<rparr>,
      isChatDraggingEnabled = True,
      lineTransforms = Map.empty,
      snapEnabled = True,
      snapThreshold = 20,
      dropZoneWidth = DEFAULT_DROPZONE_WIDTH,
      dropZoneHeight = DEFAULT_DROPZONE_HEIGHT,
      domCache_dropzone = None\<rparr>"

section \<open>Bounds calculator\<close>

definition calculateMinScale :: "overlay_state \<Rightarrow> real" where
  "calculateMinScale st = 1"

text \<open>
  \<open>calculateImageBounds\<close> returns the fallback when the image element is missing, when the
  display width or height is falsy, or when no dropzone element is found (neither cached
  nor in the document). A dropzone whose layout size is 0 is replaced by the stored
  \<open>dropZoneWidth\<close> / \<open>dropZoneHeight\<close>.
\<close>

definition calculateImageBounds :: "dom \<Rightarrow> overlay_state \<Rightarrow> bounds" where
  "calculateImageBounds d st =
     (case overlayImage d of
        None \<Rightarrow> BOUNDS_FALLBACK
      | Some img \<Rightarrow>
          let displayWidth = js_or (width (displayDimensions st)) (offsetWidth img);
              displayHeight = js_or (height (displayDimensions st)) (offsetHeight img)
          in if displayWidth = 0 \<or> displayHeight = 0 then BOUNDS_FALLBACK
             else
               (case (case domCache_dropzone st of Some c \<Rightarrow> Some c
                      | None \<Rightarrow> imageDropzone d) of
                  None \<Rightarrow> BOUNDS_FALLBACK
                | Some dropzone \<Rightarrow>
                    let dropzoneWidth = js_or (offsetWidth dropzone) (dropZoneWidth st);
                        dropzoneHeight = js_or (offsetHeight dropzone) (dropZoneHeight st);
                        imageCenterX = px (basePosition st) + displayWidth / 2;
                        imageCenterY = py (basePosition st) + displayHeight / 2;
                        scaledWidth = displayWidth * tscale (imageTransform st);
                        scaledHeight = displayHeight * tscale (imageTransform st);
                        leftEdgeLimit = min 0 (- (scaledWidth - dropzoneWidth));
                        minX' = leftEdgeLimit - imageCenterX + scaledWidth / 2;
                        rightEdgeLimit = max dropzoneWidth scaledWidth;
                        maxX' = rightEdgeLimit - imageCenterX - scaledWidth / 2;
                        topEdgeLimit = min 0 (- (scaledHeight - dropzoneHeight));
                        minY' = topEdgeLimit - imageCenterY + scaledHeight / 2;
                        bottomEdgeLimit = max dropzoneHeight scaledHeight;
                        maxY' = bottomEdgeLimit - imageCenterY - scaledHeight / 2
                    in \<lparr>minX = minX', maxX = maxX', minY = minY', maxY = maxY'\<rparr>))"

text \<open>
  The edges of the scaled image on one axis, as the comments of \<open>calculateImageBounds\<close>
  define them: the near edge is \<open>center + translate - scaled / 2\<close>, the far edge is
  \<open>center + translate + scaled / 2\<close>.
\<close>

definition nearEdge :: "real \<Rightarrow> real \<Rightarrow> real \<Rightarrow> real" where
  "nearEdge center translate scaled = center + translate - scaled / 2"

definition farEdge :: "real \<Rightarrow> real \<Rightarrow> real \<Rightarrow> real" where
  "farEdge center translate scaled = center + translate + scaled / 2"

text \<open>
  The frame callback of \<open>updateImageTransform\<close>: it re-clamps the scale to
  \<open>[minScale, 5]\<close> and then the translation to the bounds of the clamped scale. Without
  an image element \<open>updateImageTransform\<close> returns before scheduling the callback. The
  copy of the transform that the callback hands to the layer manager and the style it
  writes to the element are not part of this state.
\<close>

definition updateImageTransform :: "dom \<Rightarrow> overlay_state \<Rightarrow> overlay_state" where
  "updateImageTransform d st =
     (case overlayImage d of
        None \<Rightarrow> st
      | Some img \<Rightarrow>
          let minScale = calculateMinScale st;
              constrainedScale = max minScale (min 5 (tscale (imageTransform st)));
              st1 = st\<lparr>imageTransform := (imageTransform st)\<lparr>tscale := constrainedScale\<rparr>\<rparr>;
              b = calculateImageBounds d st1;
              constrainedX = max (minX b) (min (maxX b) (tx (imageTransform st1)));
              constrainedY = max (minY b) (min (maxY b) (ty (imageTransform st1)))
          in st1\<lparr>imageTransform :=
                   (imageTransform st1)\<lparr>tx := constrainedX, ty := constrainedY\<rparr>\<rparr>)"

section \<open>Bounds calculator in binary64\<close>

text \<open>
  The source computes in IEEE-754 binary64: every arithmetic operation returns the exact
  result rounded to the nearest number with 53 significant bits, a tie going to the even
  significand. \<open>round64\<close> is this rounding for results in the normal range; overflow,
  subnormal results, \<open>NaN\<close> and the sign of zero are not modelled. Negation, halving a
  binary64 number, \<open>Math.min\<close> and \<open>Math.max\<close> are exact.
\<close>

definition round_half_even :: "real \<Rightarrow> int" where
  "round_half_even r =
     (let f = \<lfloor>r\<rfloor>
      in if r - of_int f < 1 / 2 then f
         else if 1 / 2 < r - of_int f then f + 1
         else if even f then f else f + 1)"

definition round64 :: "real \<Rightarrow> real" where
  "round64 x =
     (if x = 0 then 0
      else let e = \<lfloor>log 2 \<bar>x\<bar>\<rfloor> - 52
           in of_int (round_half_even (x / 2 powr of_int e)) * 2 powr of_int e)"

text \<open>
  \<open>calculateImageBounds\<close> with the result of every addition, subtraction, multiplication
  and division passed through a rounding \<open>rnd\<close>, in the order the source evaluates
  them. With \<open>rnd = round64\<close> it is the computation in binary64; with the identity it
  is \<open>calculateImageBounds\<close> above, the computation in exact arithmetic.
\<close>

definition calculateImageBounds_rounded ::
  "(real \<Rightarrow> real) \<Rightarrow> dom \<Rightarrow> overlay_state \<Rightarrow> bounds" where
  "calculateImageBounds_rounded rnd d st =
     (case overlayImage d of
        None \<Rightarrow> BOUNDS_FALLBACK
      | Some img \<Rightarrow>
          let displayWidth = js_or (width (displayDimensions st)) (offsetWidth img);
              displayHeight = js_or (height (displayDimensions st)) (offsetHeight img)
          in if displayWidth = 0 \<or> displayHeight = 0 then BOUNDS_FALLBACK
             else
               (case (case domCache_dropzone st of Some c \<Rightarrow> Some c
                      | None \<Rightarrow> imageDropzone d) of
                  None \<Rightarrow> BOUNDS_FALLBACK
                | Some dropzone \<Rightarrow>
                    let dropzoneWidth = js_or (offsetWidth dropzone) (dropZoneWidth st);
                        dropzoneHeight = js_or (offsetHeight dropzone) (dropZoneHeight st);
                        imageCenterX = rnd (px (basePosition st) + rnd (displayWidth / 2));
                        imageCenterY = rnd (py (basePosition st) + rnd (displayHeight / 2));
                        scaledWidth = rnd (displayWidth * tscale (imageTransform st));
                        scaledHeight = rnd (displayHeight * tscale (imageTransform st));
                        leftEdgeLimit = min 0 (- rnd (scaledWidth - dropzoneWidth));
                        minX' = rnd (rnd (leftEdgeLimit - imageCenterX)
                                     + rnd (scaledWidth / 2));
                        rightEdgeLimit = max dropzoneWidth scaledWidth;
                        maxX' = rnd (rnd (rightEdgeLimit - imageCenterX)
                                     - rnd (scaledWidth / 2));
                        topEdgeLimit = min 0 (- rnd (scaledHeight - dropzoneHeight));
                        minY' = rnd (rnd (topEdgeLimit - imageCenterY)
                                     + rnd (scaledHeight / 2));
                        bottomEdgeLimit = max dropzoneHeight scaledHeight;
                        maxY' = rnd (rnd (bottomEdgeLimit - imageCenterY)
                                     - rnd (scaledHeight / 2))
                    in \<lparr>minX = minX', maxX = maxX', minY = minY', maxY = maxY'\<rparr>))"

text \<open>
  The sums and differences from which the bounds of one axis are formed, given the centre
  and the scaled size as computed. Where the rounding leaves each of them as it is, the
  bounds are formed without rounding error, whatever rounding went into the centre and
  the scaled size.
\<close>

definition axisSums :: "real \<Rightarrow> real \<Rightarrow> real \<Rightarrow> real list" where
  "axisSums center scaled container =
     (let nearLimit = min 0 (- (scaled - container));
          farLimit = max container scaled
      in [scaled / 2, scaled - container,
          nearLimit - center, nearLimit - center + scaled / 2,
          farLimit - center, farLimit - center - scaled / 2])"

section \<open>Chat scale, wheel zoom, snapping and persistence\<close>

definition setChatScale :: "real \<Rightarrow> overlay_state \<Rightarrow> overlay_state" where
  "setChatScale scale st =
     (let newScale = max (1 / 2) (min 2 scale)
      in st\<lparr>chatTransform := (chatTransform st)\<lparr>tscale := newScale\<rparr>\<rparr>)"

record wheel_event =
  ctrlKey :: bool
  metaKey :: bool
  deltaY :: real
  clientX :: real
  clientY :: real

text \<open>
  The wheel listener of the dropzone. \<open>dropzone\<close> is the element the listener is attached
  to; \<open>selectedLayer\<close> is \<open>window.LayerManager.selectedLayerId\<close> (\<open>None\<close> when there is no
  layer manager or no selection; an empty id is falsy as well). The result is the state
  when the listener returns: the clamping of \<open>updateImageTransform\<close> runs later, in the
  next animation frame.
\<close>

definition wheel ::
  "wheel_event \<Rightarrow> element \<Rightarrow> dom \<Rightarrow> string option \<Rightarrow> overlay_state \<Rightarrow> overlay_state" where
  "wheel e dropzone d selectedLayer st =
     (case overlayImage d of
        None \<Rightarrow> st
      | Some img \<Rightarrow>
          let isChatControl = (ctrlKey e \<or> metaKey e) in
          if selectedLayer \<noteq> None \<and> selectedLayer \<noteq> Some [] \<and> \<not> isChatControl
             \<and> datasetLayerId img \<noteq> selectedLayer
          then st
          else if isChatControl \<and> isChatDraggingEnabled st then
            let delta = (if deltaY e > 0 then 9 / 10 else 11 / 10);
                newScale = max ZOOM_MIN_SCALE
                             (min ZOOM_MAX_SCALE (tscale (chatTransform st) * delta))
            in st\<lparr>chatTransform := (chatTransform st)\<lparr>tscale := newScale\<rparr>\<rparr>
          else if isImageDraggingEnabled st then
            let delta = (if deltaY e > 0 then 9 / 10 else 11 / 10);
                minScale = calculateMinScale st;
                oldScale = tscale (imageTransform st);
                newScale = max minScale (min ZOOM_MAX_SCALE (oldScale * delta));
                mouseX = clientX e - rectLeft dropzone;
                mouseY = clientY e - rectTop dropzone;
                imageCenterX = px (basePosition st) + width (displayDimensions st) / 2;
                imageCenterY = py (basePosition st) + height (displayDimensions st) / 2;
                mouseRelX = mouseX - imageCenterX - tx (imageTransform st);
                mouseRelY = mouseY - imageCenterY - ty (imageTransform st)
            in st\<lparr>imageTransform :=
                    \<lparr>tx = tx (imageTransform st) + mouseRelX * (oldScale - newScale),
                     ty = ty (imageTransform st) + mouseRelY * (oldScale - newScale),
                     tscale = newScale\<rparr>\<rparr>
          else st)"

definition applySnapToEdge :: "dom \<Rightarrow> overlay_state \<Rightarrow> real \<Rightarrow> real \<Rightarrow> point" where
  "applySnapToEdge d st x y =
     (if \<not> snapEnabled st then \<lparr>px = x, py = y\<rparr>
      else
        (case (imageDropzone d, chatOverlayContainer d) of
           (Some dropzone, Some chatOverlay) \<Rightarrow>
             let threshold = snapThreshold st;
                 dropzoneWidth = offsetWidth dropzone;
                 dropzoneHeight = offsetHeight dropzone;
                 chatWidth = offsetWidth chatOverlay * tscale (chatTransform st);
                 chatHeight = offsetHeight chatOverlay * tscale (chatTransform st);
                 snappedX0 = x;
                 snappedY0 = y;
                 snappedX1 = (if \<bar>x\<bar> < threshold then 0 else snappedX0);
                 snappedX2 = (if \<bar>x - (dropzoneWidth - chatWidth)\<bar> < threshold
                              then dropzoneWidth - chatWidth else snappedX1);
                 snappedX3 = (if \<bar>x - (dropzoneWidth - chatWidth) / 2\<bar> < threshold
                              then (dropzoneWidth - chatWidth) / 2 else snappedX2);
                 snappedY1 = (if \<bar>y\<bar> < threshold then 0 else snappedY0);
                 snappedY2 = (if \<bar>y - (dropzoneHeight - chatHeight)\<bar> < threshold
                              then dropzoneHeight - chatHeight else snappedY1);
                 snappedY3 = (if \<bar>y - (dropzoneHeight - chatHeight) / 2\<bar> < threshold
                              then (dropzoneHeight - chatHeight) / 2 else snappedY2)
             in \<lparr>px = snappedX3, py = snappedY3\<rparr>
         | _ \<Rightarrow> \<lparr>px = x, py = y\<rparr>))"

text \<open>
  The persisted settings. \<open>localStorage.getItem\<close> throws, finds nothing, or returns the
  stored text; \<open>JSON.parse\<close> is the platform's parser, a parameter of the model that
  yields \<open>None\<close> where it throws. In an object the last of several equal keys wins.
\<close>

datatype json =
    JNull
  | JBool bool
  | JNum real
  | JStr string
  | JArr "json list"
  | JObj "(string \<times> json) list"

datatype storage_read = StorageThrows | NoItem | Item string

definition jsonProperty :: "string \<Rightarrow> (string \<times> json) list \<Rightarrow> json option" where
  "jsonProperty k kvs = map_of (rev kvs) k"

text \<open>
  \<open>loadChatSettings\<close>: everything runs inside \<open>try\<close>, so a storage failure, a parse
  failure and the property access on a parsed \<open>null\<close> all leave the state as it is. The
  assignments of \<open>chatTransform\<close> and \<open>lineTransforms\<close> are commented out in the source.
\<close>

definition loadChatSettings ::
  "(string \<Rightarrow> json option) \<Rightarrow> storage_read \<Rightarrow> overlay_state \<Rightarrow> overlay_state" where
  "loadChatSettings parse rd st =
     (case rd of
        StorageThrows \<Rightarrow> st
      | NoItem \<Rightarrow> st
      | Item saved \<Rightarrow>
          if saved = [] then st
          else
            (case parse saved of
               None \<Rightarrow> st
             | Some JNull \<Rightarrow> st
             | Some (JObj kvs) \<Rightarrow>
                 (case jsonProperty ''snapEnabled'' kvs of
                    Some (JBool flag) \<Rightarrow> st\<lparr>snapEnabled := flag\<rparr>
                  | _ \<Rightarrow> st)
             | Some _ \<Rightarrow> st))"

text \<open>
  What \<open>updateImageTransform\<close> puts on the screen: the image element carries
  \<open>translate(x, y) scale(s)\<close> with the transform origin at its own centre, so the point
  of the unscaled image at offset \<open>q\<close> from the centre is drawn at
  \<open>center + translate + s * q\<close>; the point drawn at screen coordinate \<open>m\<close> is the one
  at offset \<open>(m - center - translate) / s\<close>.
\<close>

definition drawnAt :: "real \<Rightarrow> real \<Rightarrow> real \<Rightarrow> real \<Rightarrow> real" where
  "drawnAt center translate s q = center + translate + s * q"

definition pointUnder :: "real \<Rightarrow> real \<Rightarrow> real \<Rightarrow> real \<Rightarrow> real" where
  "pointUnder center translate s m = (m - center - translate) / s"

section \<open>Layer manager\<close>

datatype layer_type = Image | Chat

record layer =
  layer_id :: string
  layer_name :: string
  layer_type :: layer_type
  imageSrc :: "string option"
  imageElement :: "element option"
  visible :: bool
  locked :: bool
  opacity :: real
  blur :: real
  grayscale :: bool
  layer_transform :: transform
  zIndex :: nat

datatype event = LayersChanged "layer list" | LayerSelectionChanged "layer option"

text \<open>
  The manager: the stack (bottom first), the selection, the counter behind
  \<open>generateLayerId\<close>, and the change notifications dispatched so far (oldest first).
\<close>

record layer_manager =
  layers :: "layer list"
  selectedLayerId :: "string option"
  layerIdCounter :: nat
  dispatched :: "event list"

definition LayerManager :: layer_manager where
  "LayerManager = \<lparr>layers = [], selectedLayerId = None, layerIdCounter = 0, dispatched = []\<rparr>"

fun string_of_nat :: "nat \<Rightarrow> string" where
  "string_of_nat n =
     (if n < 10 then [''0123456789'' ! n]
      else string_of_nat (n div 10) @ [''0123456789'' ! (n mod 10)])"

declare string_of_nat.simps [simp del]

text \<open>\<open>generateLayerId\<close> reads the clock (\<open>now\<close>, in milliseconds) and bumps the counter.\<close>

definition generateLayerId :: "nat \<Rightarrow> layer_manager \<Rightarrow> string \<times> layer_manager" where
  "generateLayerId now m =
     (''layer_'' @ string_of_nat now @ ''_'' @ string_of_nat (layerIdCounter m),
      m\<lparr>layerIdCounter := Suc (layerIdCounter m)\<rparr>)"

record layer_options =
  opt_name :: "string option"
  opt_imageSrc :: "string option"
  opt_imageElement :: "element option"

definition truthy :: "string option \<Rightarrow> bool" where
  "truthy s = (s \<noteq> None \<and> s \<noteq> Some [])"

definition createLayer ::
  "layer_type \<Rightarrow> layer_options \<Rightarrow> nat \<Rightarrow> layer_manager \<Rightarrow> layer \<times> layer_manager" where
  "createLayer type options now m =
     (let (newId, m1) = generateLayerId now m
      in (\<lparr>layer_id = newId,
           layer_name = (if truthy (opt_name options) then the (opt_name options)
                         else ''Katman '' @ string_of_nat (length (layers m) + 1)),
           layer_type = type,
           imageSrc = (if truthy (opt_imageSrc options) then opt_imageSrc options else None),
           imageElement = opt_imageElement options,
           visible = True,
           locked = False,
           opacity = 100,
           blur = 0,
           grayscale = False,
           layer_transform = \<lparr>tx = 0, ty = 0, tscale = 1\<rparr>,
           zIndex = length (layers m)\<rparr>, m1))"

definition getSelectedLayer :: "layer_manager \<Rightarrow> layer option" where
  "getSelectedLayer m =
     (if \<not> truthy (selectedLayerId m) then None
      else find (\<lambda>l. Some (layer_id l) = selectedLayerId m) (layers m))"

definition getLayer :: "string \<Rightarrow> layer_manager \<Rightarrow> layer option" where
  "getLayer i m = find (\<lambda>l. layer_id l = i) (layers m)"

definition notifyLayerChange :: "layer_manager \<Rightarrow> layer_manager" where
  "notifyLayerChange m = m\<lparr>dispatched := dispatched m @ [LayersChanged (layers m)]\<rparr>"

definition notifySelectionChange :: "layer_manager \<Rightarrow> layer_manager" where
  "notifySelectionChange m =
     m\<lparr>dispatched := dispatched m @ [LayerSelectionChanged (getSelectedLayer m)]\<rparr>"

text \<open>The default name of an image layer is the UTF-8 text of the source's label.\<close>

definition imageLabel :: string where
  "imageLabel = ''G'' @ [CHR 0xC3, CHR 0xB6] @ ''r'' @ [CHR 0xC3, CHR 0xBC] @ ''nt''
                 @ [CHR 0xC3, CHR 0xBC] @ '' ''"

definition addImageLayer ::
  "string \<Rightarrow> element \<Rightarrow> string option \<Rightarrow> nat \<Rightarrow> layer_manager \<Rightarrow> layer \<times> layer_manager" where
  "addImageLayer src el name now m =
     (let (l, m1) = createLayer Image
            \<lparr>opt_name = Some (if truthy name then the name
                              else imageLabel @ string_of_nat
                                (length (filter (\<lambda>l. layer_type l = Image) (layers m)) + 1)),
             opt_imageSrc = Some src,
             opt_imageElement = Some el\<rparr> now m;
          m2 = m1\<lparr>layers := layers m1 @ [l], selectedLayerId := Some (layer_id l)\<rparr>
      in (l, notifySelectionChange (notifyLayerChange m2)))"

definition addChatLayer :: "nat \<Rightarrow> layer_manager \<Rightarrow> layer \<times> layer_manager" where
  "addChatLayer now m =
     (case find (\<lambda>l. layer_type l = Chat) (layers m) of
        Some existingChat \<Rightarrow> (existingChat, m)
      | None \<Rightarrow>
          let (l, m1) = createLayer Chat
                 \<lparr>opt_name = Some ''Sohbet Metni'', opt_imageSrc = None,
                  opt_imageElement = None\<rparr> now m;
              m2 = m1\<lparr>layers := layers m1 @ [l]\<rparr>
          in (l, notifyLayerChange m2))"

fun findIndex :: "('a \<Rightarrow> bool) \<Rightarrow> 'a list \<Rightarrow> nat option" where
  "findIndex P [] = None"
| "findIndex P (x # xs) = (if P x then Some 0 else map_option Suc (findIndex P xs))"

text \<open>\<open>layers.forEach((layer, i) => layer.zIndex = i)\<close>\<close>

definition renumber :: "layer list \<Rightarrow> layer list" where
  "renumber ls = map (\<lambda>(i, l). l\<lparr>zIndex := i\<rparr>) (enumerate 0 ls)"

definition removeLayer :: "string \<Rightarrow> layer_manager \<Rightarrow> layer_manager" where
  "removeLayer i m =
     (case findIndex (\<lambda>l. layer_id l = i) (layers m) of
        None \<Rightarrow> m
      | Some index \<Rightarrow>
          let m1 = m\<lparr>layers := renumber (take index (layers m) @ drop (Suc index) (layers m))\<rparr>;
              m2 = (if selectedLayerId m1 = Some i
                    then notifySelectionChange
                           (m1\<lparr>selectedLayerId :=
                                 (if length (layers m1) > 0
                                  then Some (layer_id (last (layers m1))) else None)\<rparr>)
                    else m1)
          in notifyLayerChange m2)"

definition selectLayer :: "string \<Rightarrow> layer_manager \<Rightarrow> layer_manager" where
  "selectLayer i m =
     (case find (\<lambda>l. layer_id l = i) (layers m) of
        None \<Rightarrow> m
      | Some l \<Rightarrow> notifySelectionChange (m\<lparr>selectedLayerId := Some i\<rparr>))"

text \<open>
  \<open>updateLayerEffect\<close> assigns \<open>layer[property] = value\<close> when \<open>property in layer\<close>
  holds, that is for every key of the layer object: \<open>id\<close>, \<open>name\<close>, \<open>type\<close>,
  \<open>imageSrc\<close>, \<open>imageElement\<close>, \<open>visible\<close>, \<open>locked\<close>, \<open>opacity\<close>, \<open>blur\<close>,
  \<open>grayscale\<close>, \<open>transform\<close> and \<open>zIndex\<close>, not only for the four effect properties
  its documentation names. A property with its value is one of the constructors below,
  the value being of the type the field has; \<open>NotAKey\<close> stands for any other property
  name, for which nothing is assigned and nothing is announced.
\<close>

datatype property_value =
    SetId string
  | SetName string
  | SetType layer_type
  | SetImageSrc "string option"
  | SetImageElement "element option"
  | SetVisible bool
  | SetLocked bool
  | SetOpacity real
  | SetBlur real
  | SetGrayscale bool
  | SetTransform transform
  | SetZIndex nat
  | NotAKey string

fun inLayer :: "property_value \<Rightarrow> bool" where
  "inLayer (NotAKey name) = False"
| "inLayer pv = True"

fun assign :: "property_value \<Rightarrow> layer \<Rightarrow> layer" where
  "assign (SetId v) l = l\<lparr>layer_id := v\<rparr>"
| "assign (SetName v) l = l\<lparr>layer_name := v\<rparr>"
| "assign (SetType v) l = l\<lparr>layer_type := v\<rparr>"
| "assign (SetImageSrc v) l = l\<lparr>imageSrc := v\<rparr>"
| "assign (SetImageElement v) l = l\<lparr>imageElement := v\<rparr>"
| "assign (SetVisible v) l = l\<lparr>visible := v\<rparr>"
| "assign (SetLocked v) l = l\<lparr>locked := v\<rparr>"
| "assign (SetOpacity v) l = l\<lparr>opacity := v\<rparr>"
| "assign (SetBlur v) l = l\<lparr>blur := v\<rparr>"
| "assign (SetGrayscale v) l = l\<lparr>grayscale := v\<rparr>"
| "assign (SetTransform v) l = l\<lparr>layer_transform := v\<rparr>"
| "assign (SetZIndex v) l = l\<lparr>zIndex := v\<rparr>"
| "assign (NotAKey name) l = l"

text \<open>The layer that \<open>find\<close> returns is mutated in place: the first match, in the stack.\<close>

fun updateFirst :: "('a \<Rightarrow> bool) \<Rightarrow> ('a \<Rightarrow> 'a) \<Rightarrow> 'a list \<Rightarrow> 'a list" where
  "updateFirst P f [] = []"
| "updateFirst P f (x # xs) = (if P x then f x # xs else x # updateFirst P f xs)"

definition updateLayerEffect ::
  "string \<Rightarrow> property_value \<Rightarrow> bool \<Rightarrow> layer_manager \<Rightarrow> layer_manager" where
  "updateLayerEffect i pv emitEvent m =
     (case getLayer i m of
        None \<Rightarrow> m
      | Some l \<Rightarrow>
          if inLayer pv then
            let m1 = m\<lparr>layers := updateFirst (\<lambda>l. layer_id l = i) (assign pv) (layers m)\<rparr>
            in if emitEvent then notifyLayerChange m1 else m1
          else m)"

definition updateSelectedLayerEffect ::
  "property_value \<Rightarrow> bool \<Rightarrow> layer_manager \<Rightarrow> layer_manager" where
  "updateSelectedLayerEffect pv emitEvent m =
     (if truthy (selectedLayerId m)
      then updateLayerEffect (the (selectedLayerId m)) pv emitEvent m else m)"

record partial_transform =
  new_x :: "real option"
  new_y :: "real option"
  new_scale :: "real option"

definition mergeTransform :: "transform \<Rightarrow> partial_transform \<Rightarrow> transform" where
  "mergeTransform t p =
     \<lparr>tx = (case new_x p of Some v \<Rightarrow> v | None \<Rightarrow> tx t),
      ty = (case new_y p of Some v \<Rightarrow> v | None \<Rightarrow> ty t),
      tscale = (case new_scale p of Some v \<Rightarrow> v | None \<Rightarrow> tscale t)\<rparr>"

definition updateLayerTransform ::
  "string \<Rightarrow> partial_transform \<Rightarrow> bool \<Rightarrow> layer_manager \<Rightarrow> layer_manager" where
  "updateLayerTransform i p emitEvent m =
     (case getLayer i m of
        None \<Rightarrow> m
      | Some l \<Rightarrow>
          let m1 = m\<lparr>layers := updateFirst (\<lambda>l. layer_id l = i)
                       (\<lambda>l. l\<lparr>layer_transform := mergeTransform (layer_transform l) p\<rparr>)
                       (layers m)\<rparr>
          in if emitEvent then notifyLayerChange m1 else m1)"

definition toggleLayerVisibility :: "string \<Rightarrow> layer_manager \<Rightarrow> layer_manager" where
  "toggleLayerVisibility i m =
     (case getLayer i m of
        None \<Rightarrow> m
      | Some l \<Rightarrow>
          notifyLayerChange
            (m\<lparr>layers := updateFirst (\<lambda>l. layer_id l = i)
                  (\<lambda>l. l\<lparr>visible := \<not> visible l\<rparr>) (layers m)\<rparr>))"

definition moveLayerUp :: "string \<Rightarrow> layer_manager \<Rightarrow> layer_manager" where
  "moveLayerUp i m =
     (case findIndex (\<lambda>l. layer_id l = i) (layers m) of
        None \<Rightarrow> m
      | Some index \<Rightarrow>
          if Suc index \<ge> length (layers m) then m
          else
            notifyLayerChange
              (m\<lparr>layers := renumber ((layers m)[index := layers m ! Suc index,
                                                  Suc index := layers m ! index])\<rparr>))"

definition moveLayerDown :: "string \<Rightarrow> layer_manager \<Rightarrow> layer_manager" where
  "moveLayerDown i m =
     (case findIndex (\<lambda>l. layer_id l = i) (layers m) of
        None \<Rightarrow> m
      | Some index \<Rightarrow>
          if index \<le> 0 then m
          else
            notifyLayerChange
              (m\<lparr>layers := renumber ((layers m)[index := layers m ! (index - 1),
                                                  index - 1 := layers m ! index])\<rparr>))"

definition getLayersSorted :: "layer_manager \<Rightarrow> layer list" where
  "getLayersSorted m = sort_key zIndex (layers m)"

definition getVisibleLayersSorted :: "layer_manager \<Rightarrow> layer list" where
  "getVisibleLayersSorted m = filter visible (getLayersSorted m)"

definition clearAll :: "layer_manager \<Rightarrow> layer_manager" where
  "clearAll m =
     notifySelectionChange (notifyLayerChange (m\<lparr>layers := [], selectedLayerId := None\<rparr>))"

text \<open>
  A call of the manager's interface, and a run of such calls on the manager; the layer a
  call returns is dropped.
\<close>

datatype layer_op =
    AddImageLayer string element "string option" nat
  | AddChatLayer nat
  | RemoveLayer string
  | SelectLayer string
  | UpdateLayerEffect string property_value bool
  | UpdateSelectedLayerEffect property_value bool
  | UpdateLayerTransform string partial_transform bool
  | ToggleLayerVisibility string
  | MoveLayerUp string
  | MoveLayerDown string
  | ClearAll

fun call :: "layer_op \<Rightarrow> layer_manager \<Rightarrow> layer_manager" where
  "call (AddImageLayer src el name now) m = snd (addImageLayer src el name now m)"
| "call (AddChatLayer now) m = snd (addChatLayer now m)"
| "call (RemoveLayer i) m = removeLayer i m"
| "call (SelectLayer i) m = selectLayer i m"
| "call (UpdateLayerEffect i pv emitEvent) m = updateLayerEffect i pv emitEvent m"
| "call (UpdateSelectedLayerEffect pv emitEvent) m = updateSelectedLayerEffect pv emitEvent m"
| "call (UpdateLayerTransform i p emitEvent) m = updateLayerTransform i p emitEvent m"
| "call (ToggleLayerVisibility i) m = toggleLayerVisibility i m"
| "call (MoveLayerUp i) m = moveLayerUp i m"
| "call (MoveLayerDown i) m = moveLayerDown i m"
| "call ClearAll m = clearAll m"

fun run :: "layer_op list \<Rightarrow> layer_manager \<Rightarrow> layer_manager" where
  "run [] m = m"
| "run (c # cs) m = run cs (call c m)"

text \<open>
  The stack mutations are the calls that add, remove or move a layer. The other calls
  leave the stack's structure alone, but \<open>updateLayerEffect\<close> can overwrite the field a
  property of the stack is stated in: \<open>propertySet\<close> is the property a call assigns, if
  it is such a call.
\<close>

fun isStackMutation :: "layer_op \<Rightarrow> bool" where
  "isStackMutation (AddImageLayer src el name now) = True"
| "isStackMutation (AddChatLayer now) = True"
| "isStackMutation (RemoveLayer i) = True"
| "isStackMutation (MoveLayerUp i) = True"
| "isStackMutation (MoveLayerDown i) = True"
| "isStackMutation c = False"

fun propertySet :: "layer_op \<Rightarrow> property_value" where
  "propertySet (UpdateLayerEffect i pv emitEvent) = pv"
| "propertySet (UpdateSelectedLayerEffect pv emitEvent) = pv"
| "propertySet c = NotAKey []"

fun setsType :: "layer_op \<Rightarrow> bool" where
  "setsType c = (case propertySet c of SetType v \<Rightarrow> True | _ \<Rightarrow> False)"

fun setsZIndex :: "layer_op \<Rightarrow> bool" where
  "setsZIndex c = (case propertySet c of SetZIndex v \<Rightarrow> True | _ \<Rightarrow> False)"

fun setsId :: "layer_op \<Rightarrow> bool" where
  "setsId c = (case propertySet c of SetId v \<Rightarrow> True | _ \<Rightarrow> False)"

text \<open>The zIndex values are \<open>0, 1, ..., N - 1\<close> in stack order.\<close>

definition zIndexDense :: "layer list \<Rightarrow> bool" where
  "zIndexDense ls = (map zIndex ls = [0..<length ls])"

definition chatLayers :: "layer list \<Rightarrow> layer list" where
  "chatLayers ls = filter (\<lambda>l. layer_type l = Chat) ls"

section \<open>Errors as values\<close>

text \<open>
  The operations above are total functions: they say what an operation computes, not
  whether it can throw. Here the operations are written once more with errors as values,
  each place where the source can throw being a branch: reading a property of \<open>null\<close> or
  \<open>undefined\<close> throws a \<open>TypeError\<close> (\<open>deref\<close>), \<open>JSON.parse\<close> throws a \<open>SyntaxError\<close> and
  the storage throws a \<open>DOMException\<close> when it is unavailable or full. \<open>bindE\<close> passes a
  thrown error on to the caller, \<open>tryCatch\<close> is \<open>try { ... } catch (e) { ... }\<close>. The
  guards and the \<open>try\<close> blocks stand where the source has them; what is computed between
  them is taken from the operations above.
\<close>

datatype js_error = TypeError | SyntaxError | DOMException

definition deref :: "'a option \<Rightarrow> js_error + 'a" where
  "deref r = (case r of None \<Rightarrow> Inl TypeError | Some v \<Rightarrow> Inr v)"

definition bindE :: "js_error + 'a \<Rightarrow> ('a \<Rightarrow> js_error + 'b) \<Rightarrow> js_error + 'b" where
  "bindE r f = (case r of Inl e \<Rightarrow> Inl e | Inr v \<Rightarrow> f v)"



























section \<open>Example configurations\<close>

definition img_example :: element where
  "img_example = \<lparr>offsetWidth = 400, offsetHeight = 300, rectLeft = 200, rectTop = 150,
                   datasetLayerId = None\<rparr>"

definition dropzone_example :: element where
  "dropzone_example = \<lparr>offsetWidth = 800, offsetHeight = 600, rectLeft = 0, rectTop = 0,
                        datasetLayerId = None\<rparr>"

definition dropzone_collapsed :: element where
  "dropzone_collapsed = \<lparr>offsetWidth = 0, offsetHeight = 0, rectLeft = 0, rectTop = 0,
                          datasetLayerId = None\<rparr>"

definition chat_example :: element where
  "chat_example = \<lparr>offsetWidth = 100, offsetHeight = 40, rectLeft = 0, rectTop = 0,
                    datasetLayerId = None\<rparr>"

definition dom_example :: dom where
  "dom_example = \<lparr>overlayImage = Some img_example, imageDropzone = Some dropzone_example,
                   chatOverlayContainer = Some chat_example\<rparr>"

definition dom_collapsed :: dom where
  "dom_collapsed = \<lparr>overlayImage = Some img_example, imageDropzone = Some dropzone_collapsed,
                     chatOverlayContainer = Some chat_example\<rparr>"

definition dom_no_image :: dom where
  "dom_no_image = \<lparr>overlayImage = None, imageDropzone = Some dropzone_example,
                    chatOverlayContainer = Some chat_example\<rparr>"

definition dom_no_dropzone :: dom where
  "dom_no_dropzone = \<lparr>overlayImage = Some img_example, imageDropzone = None,
                       chatOverlayContainer = Some chat_example\<rparr>"

definition dom_empty_image :: dom where
  "dom_empty_image = \<lparr>overlayImage = Some dropzone_collapsed,
                       imageDropzone = Some dropzone_example,
                       chatOverlayContainer = Some chat_example\<rparr>"

definition state_loaded :: "real \<Rightarrow> overlay_state" where
  "state_loaded s =
     ImageOverlayState\<lparr>displayDimensions := \<lparr>width = 400, height = 300\<rparr>,
                       basePosition := \<lparr>px = 200, py = 150\<rparr>,
                       imageTransform := \<lparr>tx = 0, ty = 0, tscale = s\<rparr>\<rparr>"

definition wheel_chat_zoom_in :: wheel_event where
  "wheel_chat_zoom_in = \<lparr>ctrlKey = True, metaKey = False, deltaY = - 100, clientX = 500,
                         clientY = 300\<rparr>"

definition wheel_image_zoom_in :: wheel_event where
  "wheel_image_zoom_in = \<lparr>ctrlKey = False, metaKey = False, deltaY = - 100, clientX = 500,
                          clientY = 300\<rparr>"

definition state_snap_off :: overlay_state where
  "state_snap_off = (state_loaded 1)\<lparr>snapEnabled := False\<rparr>"

definition settings_example :: json where
  "settings_example =
     JObj [(''chatTransform'', JObj [(''x'', JNum 120), (''y'', JNum 80), (''scale'', JNum 2)]),
           (''snapEnabled'', JBool False),
           (''lineTransforms'', JObj [(''0'', JObj [(''x'', JNum 5), (''y'', JNum 7)])])]"

definition state_zoomed_once :: overlay_state where
  "state_zoomed_once =
     updateImageTransform dom_example
       (wheel wheel_image_zoom_in dropzone_example dom_example None (state_loaded 1))"

definition state_zoomed_twice :: overlay_state where
  "state_zoomed_twice =
     updateImageTransform dom_example
       (wheel wheel_image_zoom_in dropzone_example dom_example None state_zoomed_once)"

definition layer_a :: layer where
  "layer_a = \<lparr>layer_id = ''layer_17_0'', layer_name = ''first'', layer_type = Image,
               imageSrc = Some ''data:a'', imageElement = Some img_example, visible = True,
               locked = False, opacity = 100, blur = 0, grayscale = False,
               layer_transform = \<lparr>tx = 0, ty = 0, tscale = 1\<rparr>, zIndex = 0\<rparr>"

definition layer_b :: layer where
  "layer_b = \<lparr>layer_id = ''layer_17_1'', layer_name = ''second'', layer_type = Image,
               imageSrc = Some ''data:b'', imageElement = Some img_example, visible = True,
               locked = False, opacity = 100, blur = 0, grayscale = False,
               layer_transform = \<lparr>tx = 0, ty = 0, tscale = 1\<rparr>, zIndex = 1\<rparr>"

definition layer_chat :: layer where
  "layer_chat = \<lparr>layer_id = ''layer_18_2'', layer_name = ''Sohbet Metni'', layer_type = Chat,
                  imageSrc = None, imageElement = None, visible = True,
                  locked = False, opacity = 100, blur = 0, grayscale = False,
                  layer_transform = \<lparr>tx = 0, ty = 0, tscale = 1\<rparr>, zIndex = 1\<rparr>"

definition manager_ab :: layer_manager where
  "manager_ab = \<lparr>layers = [layer_a, layer_b], selectedLayerId = Some ''layer_17_1'',
                  layerIdCounter = 2, dispatched = []\<rparr>"

definition manager_a :: layer_manager where
  "manager_a = \<lparr>layers = [layer_a], selectedLayerId = Some ''layer_17_0'',
                 layerIdCounter = 1, dispatched = []\<rparr>"

definition manager_chat :: layer_manager where
  "manager_chat = \<lparr>layers = [layer_a, layer_chat], selectedLayerId = Some ''layer_17_0'',
                    layerIdCounter = 3, dispatched = []\<rparr>"

text \<open>
  An image layer and a chat layer are added, then the image layer is given the type of a
  chat layer through \<open>updateLayerEffect\<close>.
\<close>

definition calls_retyping :: "layer_op list" where
  "calls_retyping =
     [AddImageLayer ''data:a'' img_example None 17, AddChatLayer 18,
      UpdateLayerEffect ''layer_17_0'' (SetType Chat) True]"

text \<open>The selection is empty or names a layer of the stack.\<close>

definition selectionValid :: "layer_manager \<Rightarrow> bool" where
  "selectionValid m =
     (case selectedLayerId m of None \<Rightarrow> True | Some i \<Rightarrow> i \<in> layer_id ` set (layers m))"

text \<open>
  The image at the base position \<open>(0.1, 0.2)\<close>, as \<open>parseFloat\<close> reads these numbers,
  at scale 2.
\<close>

definition state_fraction :: overlay_state where
  "state_fraction =
     ImageOverlayState\<lparr>displayDimensions := \<lparr>width = 400, height = 300\<rparr>,
                       basePosition := \<lparr>px = round64 (1 / 10), py = round64 (1 / 5)\<rparr>,
                       imageTransform := \<lparr>tx = 0, ty = 0, tscale = 2\<rparr>\<rparr>"



text \<open>
  The image at (200, 150) after one notch of the wheel: the scale is the binary64 number
  nearest to 1.1, and the scaled width \<open>400 * 1.1\<close> is rounded.
\<close>

definition state_zoomed_binary64 :: overlay_state where
  "state_zoomed_binary64 =
     ImageOverlayState\<lparr>displayDimensions := \<lparr>width = 400, height = 300\<rparr>,
                       basePosition := \<lparr>px = 200, py = 150\<rparr>,
                       imageTransform := \<lparr>tx = 0, ty = 0, tscale = round64 (11 / 10)\<rparr>\<rparr>"

section \<open>Properties of the bounds calculator\<close>

lemma element_example_simps:
  "offsetWidth img_example = 400" "offsetHeight img_example = 300"
  "offsetWidth dropzone_example = 800" "offsetHeight dropzone_example = 600"
  "rectLeft dropzone_example = 0" "rectTop dropzone_example = 0"
  "offsetWidth dropzone_collapsed = 0" "offsetHeight dropzone_collapsed = 0"
  "offsetWidth chat_example = 100" "offsetHeight chat_example = 40"
  "datasetLayerId img_example = None"
  by (simp_all add: img_example_def dropzone_example_def dropzone_collapsed_def
      chat_example_def)

lemma dom_example_simps:
  "overlayImage dom_example = Some img_example"
  "imageDropzone dom_example = Some dropzone_example"
  "chatOverlayContainer dom_example = Some chat_example"
  "overlayImage dom_collapsed = Some img_example"
  "imageDropzone dom_collapsed = Some dropzone_collapsed"
  "overlayImage dom_no_image = None"
  "overlayImage dom_no_dropzone = Some img_example"
  "imageDropzone dom_no_dropzone = None"
  "overlayImage dom_empty_image = Some dropzone_collapsed"
  "imageDropzone dom_empty_image = Some dropzone_example"
  by (simp_all add: dom_example_def dom_collapsed_def dom_no_image_def dom_no_dropzone_def
      dom_empty_image_def)

lemma ImageOverlayState_simps:
  "imageTransform ImageOverlayState = \<lparr>tx = 0, ty = 0, tscale = 1\<rparr>"
  "displayDimensions ImageOverlayState = \<lparr>width = 0, height = 0\<rparr>"
  "basePosition ImageOverlayState = \<lparr>px = 0, py = 0\<rparr>"
  "domCache_dropzone ImageOverlayState = None"
  "dropZoneWidth ImageOverlayState = 800"
  "dropZoneHeight ImageOverlayState = 600"
  "isImageDraggingEnabled ImageOverlayState"
  "isChatDraggingEnabled ImageOverlayState"
  "snapEnabled ImageOverlayState"
  "snapThreshold ImageOverlayState = 20"
  "chatTransform ImageOverlayState = \<lparr>tx = 0, ty = 0, tscale = 1\<rparr>"
  by (simp_all add: ImageOverlayState_def DEFAULT_DROPZONE_WIDTH_def
      DEFAULT_DROPZONE_HEIGHT_def DEFAULT_SCALE_def)

lemma state_loaded_simps:
  "displayDimensions (state_loaded s) = \<lparr>width = 400, height = 300\<rparr>"
  "basePosition (state_loaded s) = \<lparr>px = 200, py = 150\<rparr>"
  "imageTransform (state_loaded s) = \<lparr>tx = 0, ty = 0, tscale = s\<rparr>"
  "domCache_dropzone (state_loaded s) = None"
  "dropZoneWidth (state_loaded s) = 800"
  "dropZoneHeight (state_loaded s) = 600"
  "isImageDraggingEnabled (state_loaded s)"
  "isChatDraggingEnabled (state_loaded s)"
  "snapEnabled (state_loaded s)"
  "snapThreshold (state_loaded s) = 20"
  "chatTransform (state_loaded s) = \<lparr>tx = 0, ty = 0, tscale = 1\<rparr>"
  by (simp_all add: state_loaded_def ImageOverlayState_simps)

lemma calculateImageBounds_regular:
  assumes "overlayImage d = Some img"
    and "(case domCache_dropzone st of Some c \<Rightarrow> Some c | None \<Rightarrow> imageDropzone d)
           = Some dropzone"
    and "js_or (width (displayDimensions st)) (offsetWidth img) \<noteq> 0"
    and "js_or (height (displayDimensions st)) (offsetHeight img) \<noteq> 0"
  shows "calculateImageBounds d st =
     (let dw = js_or (width (displayDimensions st)) (offsetWidth img);
          dh = js_or (height (displayDimensions st)) (offsetHeight img);
          W = js_or (offsetWidth dropzone) (dropZoneWidth st);
          V = js_or (offsetHeight dropzone) (dropZoneHeight st);
          s = tscale (imageTransform st)
      in \<lparr>minX = min 0 (- (dw * s - W)) - (px (basePosition st) + dw / 2) + dw * s / 2,
          maxX = max W (dw * s) - (px (basePosition st) + dw / 2) - dw * s / 2,
          minY = min 0 (- (dh * s - V)) - (py (basePosition st) + dh / 2) + dh * s / 2,
          maxY = max V (dh * s) - (py (basePosition st) + dh / 2) - dh * s / 2\<rparr>)"
  using assms by (simp add: calculateImageBounds_def Let_def)

lemma calculateImageBounds_loaded:
  "calculateImageBounds dom_example (state_loaded s) =
     \<lparr>minX = min 0 (800 - 400 * s) - 400 + 200 * s, maxX = max 800 (400 * s) - 400 - 200 * s,
      minY = min 0 (600 - 300 * s) - 300 + 150 * s, maxY = max 600 (300 * s) - 300 - 150 * s\<rparr>"
  by (simp add: calculateImageBounds_regular [where img = img_example
        and dropzone = dropzone_example]
      dom_example_simps state_loaded_simps element_example_simps js_or_def)


text \<open>
  Claim C1. With an image element and a dropzone present and a non-zero display size,
  \<open>calculateImageBounds\<close> returns exactly
  \<open>minX = min(0, -(2H - W)) - C + H\<close> and \<open>maxX = max(W, 2H) - C - H\<close>, where \<open>W\<close> is
  the container extent, \<open>C = basePosition + displaySize / 2\<close> the element centre and
  \<open>H = displaySize * scale / 2\<close> the scaled half-extent, and the same on the Y axis.
\<close>

theorem calculateImageBounds_formula:
  assumes img: "overlayImage d = Some img"
    and dz: "(case domCache_dropzone st of Some c \<Rightarrow> Some c | None \<Rightarrow> imageDropzone d)
               = Some dropzone"
    and dw: "dw = js_or (width (displayDimensions st)) (offsetWidth img)"
    and dh: "dh = js_or (height (displayDimensions st)) (offsetHeight img)"
    and nz: "dw \<noteq> 0" "dh \<noteq> 0"
    and W: "W = js_or (offsetWidth dropzone) (dropZoneWidth st)"
    and V: "V = js_or (offsetHeight dropzone) (dropZoneHeight st)"
    and C: "Cx = px (basePosition st) + dw / 2" "Cy = py (basePosition st) + dh / 2"
    and H: "Hx = dw * tscale (imageTransform st) / 2" "Hy = dh * tscale (imageTransform st) / 2"
  shows "calculateImageBounds d st =
           \<lparr>minX = min 0 (- (2 * Hx - W)) - Cx + Hx,
            maxX = max W (2 * Hx) - Cx - Hx,
            minY = min 0 (- (2 * Hy - V)) - Cy + Hy,
            maxY = max V (2 * Hy) - Cy - Hy\<rparr>"
  using calculateImageBounds_regular [OF img dz] nz unfolding H C W V dw dh
  by (simp add: Let_def)

lemma example_hyps:
  "overlayImage dom_example = Some img_example"
  "(case domCache_dropzone (state_loaded s) of Some c \<Rightarrow> Some c
    | None \<Rightarrow> imageDropzone dom_example) = Some dropzone_example"
  "400 = js_or (width (displayDimensions (state_loaded s))) (offsetWidth img_example)"
  "300 = js_or (height (displayDimensions (state_loaded s))) (offsetHeight img_example)"
  "800 = js_or (offsetWidth dropzone_example) (dropZoneWidth (state_loaded s))"
  "600 = js_or (offsetHeight dropzone_example) (dropZoneHeight (state_loaded s))"
  "400 = px (basePosition (state_loaded s)) + 400 / 2"
  "300 = py (basePosition (state_loaded s)) + 300 / 2"
  by (simp_all add: dom_example_simps state_loaded_simps element_example_simps js_or_def)

text \<open>
  The image of 400 by 300 at (200, 150) in the dropzone of 800 by 600, at scale 2: it
  fills the dropzone and cannot move.
\<close>

theorem calculateImageBounds_formula_witness:
  "calculateImageBounds dom_example (state_loaded 2) =
     \<lparr>minX = 0, maxX = 0, minY = 0, maxY = 0\<rparr>"
proof -
  have H: "400 = 400 * tscale (imageTransform (state_loaded 2)) / 2"
    "300 = 300 * tscale (imageTransform (state_loaded 2)) / 2"
    by (simp_all add: state_loaded_simps)
  have nz: "(400::real) \<noteq> 0" "(300::real) \<noteq> 0" by simp_all
  from calculateImageBounds_formula [OF example_hyps(1,2,3,4) nz example_hyps(5,6,7,8) H]
  show ?thesis by simp
qed

lemma axis_ordered:
  fixes W S C :: real
  shows "min 0 (- (S - W)) - C + S / 2 \<le> max W S - C - S / 2"
  by (simp add: min_def max_def)

lemma axis_contained:
  fixes W S C :: real
  assumes "S \<le> W"
  shows "nearEdge C (min 0 (- (S - W)) - C + S / 2) S = 0"
    and "farEdge C (min 0 (- (S - W)) - C + S / 2) S = S"
    and "nearEdge C (max W S - C - S / 2) S = W - S"
    and "farEdge C (max W S - C - S / 2) S = W"
  using assms by (simp_all add: nearEdge_def farEdge_def min_def max_def)

text \<open>
  In exact arithmetic the bounds are ordered for every scale, and on an axis where the
  scaled size is at most the container size a translation at either end of the range
  keeps both edges of the element inside the container.
\<close>

lemma calculateImageBounds_exact_ordered_contained:
  assumes img: "overlayImage d = Some img"
    and dz: "(case domCache_dropzone st of Some c \<Rightarrow> Some c | None \<Rightarrow> imageDropzone d)
               = Some dropzone"
    and dw: "dw = js_or (width (displayDimensions st)) (offsetWidth img)"
    and dh: "dh = js_or (height (displayDimensions st)) (offsetHeight img)"
    and W: "W = js_or (offsetWidth dropzone) (dropZoneWidth st)"
    and V: "V = js_or (offsetHeight dropzone) (dropZoneHeight st)"
    and pos: "0 < dw" "0 < dh" "0 < W" "0 < V"
    and C: "Cx = px (basePosition st) + dw / 2" "Cy = py (basePosition st) + dh / 2"
    and S: "Sx = dw * tscale (imageTransform st)" "Sy = dh * tscale (imageTransform st)"
    and b: "b = calculateImageBounds d st"
  shows "minX b \<le> maxX b \<and> minY b \<le> maxY b
       \<and> (Sx \<le> W \<longrightarrow> (\<forall>t \<in> {minX b, maxX b}. 0 \<le> nearEdge Cx t Sx \<and> farEdge Cx t Sx \<le> W))
       \<and> (Sy \<le> V \<longrightarrow> (\<forall>t \<in> {minY b, maxY b}. 0 \<le> nearEdge Cy t Sy \<and> farEdge Cy t Sy \<le> V))"
proof -
  have nz: "js_or (width (displayDimensions st)) (offsetWidth img) \<noteq> 0"
    "js_or (height (displayDimensions st)) (offsetHeight img) \<noteq> 0"
    using pos dw dh by auto
  have xb: "minX b = min 0 (- (Sx - W)) - Cx + Sx / 2" "maxX b = max W Sx - Cx - Sx / 2"
    and yb: "minY b = min 0 (- (Sy - V)) - Cy + Sy / 2" "maxY b = max V Sy - Cy - Sy / 2"
    unfolding b calculateImageBounds_regular [OF img dz nz] S C W V dw dh
    by (simp_all add: Let_def)
  have ox: "minX b \<le> maxX b" unfolding xb by (rule axis_ordered)
  have oy: "minY b \<le> maxY b" unfolding yb by (rule axis_ordered)
  have cx: "\<forall>t \<in> {minX b, maxX b}. 0 \<le> nearEdge Cx t Sx \<and> farEdge Cx t Sx \<le> W" if "Sx \<le> W"
    unfolding xb using axis_contained [OF that, of Cx] that by simp
  have cy: "\<forall>t \<in> {minY b, maxY b}. 0 \<le> nearEdge Cy t Sy \<and> farEdge Cy t Sy \<le> V" if "Sy \<le> V"
    unfolding yb using axis_contained [OF that, of Cy] that by simp
  from ox oy cx cy show ?thesis by blast
qed


section \<open>Properties of the bounds calculator in binary64\<close>

lemma round_half_even_of_int [simp]: "round_half_even (of_int n) = n"
  by (simp add: round_half_even_def)

lemma floor_log2_scaled:
  fixes x :: real and k :: nat
  assumes lo: "2 ^ 52 \<le> \<bar>x\<bar> * 2 ^ k" and hi: "\<bar>x\<bar> * 2 ^ k < 2 ^ 53"
  shows "\<lfloor>log 2 \<bar>x\<bar>\<rfloor> = 52 - int k"
proof -
  have pos: "0 < \<bar>x\<bar>" using lo by (cases "x = 0") simp_all
  have p: "(2::real) powr of_int (52 - int k) = 2 ^ 52 / 2 ^ k"
    by (simp add: powr_diff powr_realpow flip: powr_realpow [of 2 52])
  have q: "(2::real) powr of_int (52 - int k + 1) = 2 ^ 53 / 2 ^ k"
    by (simp add: powr_diff powr_realpow flip: powr_realpow [of 2 53])
  have "2 ^ 52 / 2 ^ k \<le> \<bar>x\<bar>" using lo by (simp add: field_simps)
  moreover have "\<bar>x\<bar> < 2 ^ 53 / 2 ^ k" using hi by (simp add: field_simps)
  ultimately show ?thesis
    using floor_log_eq_powr_iff [of "\<bar>x\<bar>" 2 "52 - int k"] pos p q by simp
qed

lemma round64_scaled:
  fixes x :: real and k :: nat
  assumes lo: "2 ^ 52 \<le> \<bar>x\<bar> * 2 ^ k" and hi: "\<bar>x\<bar> * 2 ^ k < 2 ^ 53"
  shows "round64 x = of_int (round_half_even (x * 2 ^ k)) / 2 ^ k"
proof -
  have nz: "x \<noteq> 0" using lo by auto
  have e: "\<lfloor>log 2 \<bar>x\<bar>\<rfloor> - 52 = - int k" using floor_log2_scaled [OF lo hi] by simp
  have p: "(2::real) powr (- real k) = 1 / 2 ^ k"
    by (simp add: powr_minus powr_realpow inverse_eq_divide)
  show ?thesis using nz by (simp add: round64_def e p Let_def)
qed

lemma round64_eval:
  fixes x y :: real and k :: nat
  assumes "x * 2 ^ k = y" and "2 ^ 52 \<le> \<bar>y\<bar>" and "\<bar>y\<bar> < 2 ^ 53"
    and "round_half_even y = n"
  shows "round64 x = of_int n / 2 ^ k"
proof -
  have a: "\<bar>x\<bar> * 2 ^ k = \<bar>y\<bar>" using assms(1) by (simp add: abs_mult flip: assms(1))
  show ?thesis using round64_scaled [of x k] assms a by simp
qed

lemma round64_exact:
  fixes x :: real and k :: nat
  assumes "x * 2 ^ k = of_int n" and "2 ^ 52 \<le> \<bar>n\<bar>" and "\<bar>n\<bar> < 2 ^ 53"
  shows "round64 x = x"
proof -
  have "2 ^ 52 \<le> \<bar>of_int n :: real\<bar>" using assms(2) by (simp flip: of_int_abs)
  moreover have "\<bar>of_int n :: real\<bar> < 2 ^ 53" using assms(3) by (simp flip: of_int_abs)
  ultimately have "round64 x = of_int n / 2 ^ k"
    using round64_eval [OF assms(1), of n] by simp
  also have "\<dots> = x" using assms(1) by (simp add: field_simps)
  finally show ?thesis .
qed


lemma round64_zero [simp]: "round64 0 = 0"
  by (simp add: round64_def)

lemma round64_examples:
  "round64 150 = 150" "round64 200 = 200" "round64 300 = 300" "round64 400 = 400"
  "round64 800 = 800"
  "round64 (- 150) = - 150" "round64 (- 200) = - 200" "round64 (- 300) = - 300"
  "round64 (- 400) = - 400"
proof -
  show "round64 150 = 150"
    by (rule round64_exact [where k = 45 and n = 5277655813324800]) simp_all
  show "round64 200 = 200"
    by (rule round64_exact [where k = 45 and n = 7036874417766400]) simp_all
  show "round64 300 = 300"
    by (rule round64_exact [where k = 44 and n = 5277655813324800]) simp_all
  show "round64 400 = 400"
    by (rule round64_exact [where k = 44 and n = 7036874417766400]) simp_all
  show "round64 800 = 800"
    by (rule round64_exact [where k = 43 and n = 7036874417766400]) simp_all
  show "round64 (- 150) = - 150"
    by (rule round64_exact [where k = 45 and n = "- 5277655813324800"]) simp_all
  show "round64 (- 200) = - 200"
    by (rule round64_exact [where k = 45 and n = "- 7036874417766400"]) simp_all
  show "round64 (- 300) = - 300"
    by (rule round64_exact [where k = 44 and n = "- 5277655813324800"]) simp_all
  show "round64 (- 400) = - 400"
    by (rule round64_exact [where k = 44 and n = "- 7036874417766400"]) simp_all
qed

lemma round64_tenth: "round64 (1 / 10) = 3602879701896397 / 36028797018963968"
proof -
  have "round64 (1 / 10) = of_int 7205759403792794 / 2 ^ 56"
    by (rule round64_eval [where y = "36028797018963968 / 5"])
       (simp_all add: round_half_even_def)
  then show ?thesis by simp
qed

lemma round64_fraction_steps:
  "round64 (7209362283494689997 / 36028797018963968) = 7040392854975283 / 35184372088832"
  "round64 (- (7040392854975283 / 35184372088832)) = - (7040392854975283 / 35184372088832)"
  "round64 (7033355980557517 / 35184372088832) = 7033355980557517 / 35184372088832"
  "round64 (21107104816090317 / 35184372088832) = 5276776204022579 / 8796093022208"
  "round64 (1758338995139379 / 8796093022208) = 1758338995139379 / 8796093022208"
proof -
  have "round64 (7209362283494689997 / 36028797018963968)
          = of_int 7040392854975283 / 2 ^ 45"
    by (rule round64_eval [where y = "7209362283494689997 / 1024"])
       (simp_all add: round_half_even_def)
  then show "round64 (7209362283494689997 / 36028797018963968)
               = 7040392854975283 / 35184372088832" by simp
  show "round64 (- (7040392854975283 / 35184372088832))
          = - (7040392854975283 / 35184372088832)"
    by (rule round64_exact [where k = 45 and n = "- 7040392854975283"]) simp_all
  show "round64 (7033355980557517 / 35184372088832) = 7033355980557517 / 35184372088832"
    by (rule round64_exact [where k = 45 and n = 7033355980557517]) simp_all
  have "round64 (21107104816090317 / 35184372088832) = of_int 5276776204022579 / 2 ^ 43"
    by (rule round64_eval [where y = "21107104816090317 / 4"])
       (simp_all add: round_half_even_def)
  then show "round64 (21107104816090317 / 35184372088832)
               = 5276776204022579 / 8796093022208" by simp
  show "round64 (1758338995139379 / 8796093022208) = 1758338995139379 / 8796093022208"
    by (rule round64_exact [where k = 45 and n = 7033355980557516]) simp_all
qed

lemma calculateImageBounds_rounded_regular:
  assumes "overlayImage d = Some img"
    and "(case domCache_dropzone st of Some c \<Rightarrow> Some c | None \<Rightarrow> imageDropzone d)
           = Some dropzone"
    and "js_or (width (displayDimensions st)) (offsetWidth img) \<noteq> 0"
    and "js_or (height (displayDimensions st)) (offsetHeight img) \<noteq> 0"
  shows "calculateImageBounds_rounded rnd d st =
     (let dw = js_or (width (displayDimensions st)) (offsetWidth img);
          dh = js_or (height (displayDimensions st)) (offsetHeight img);
          W = js_or (offsetWidth dropzone) (dropZoneWidth st);
          V = js_or (offsetHeight dropzone) (dropZoneHeight st);
          s = tscale (imageTransform st);
          bx = px (basePosition st);
          by' = py (basePosition st)
      in \<lparr>minX = rnd (rnd (min 0 (- rnd (rnd (dw * s) - W)) - rnd (bx + rnd (dw / 2)))
                       + rnd (rnd (dw * s) / 2)),
          maxX = rnd (rnd (max W (rnd (dw * s)) - rnd (bx + rnd (dw / 2)))
                       - rnd (rnd (dw * s) / 2)),
          minY = rnd (rnd (min 0 (- rnd (rnd (dh * s) - V)) - rnd (by' + rnd (dh / 2)))
                       + rnd (rnd (dh * s) / 2)),
          maxY = rnd (rnd (max V (rnd (dh * s)) - rnd (by' + rnd (dh / 2)))
                       - rnd (rnd (dh * s) / 2))\<rparr>)"
  using assms by (simp add: calculateImageBounds_rounded_def Let_def)

lemma state_fraction_simps:
  "displayDimensions state_fraction = \<lparr>width = 400, height = 300\<rparr>"
  "basePosition state_fraction = \<lparr>px = round64 (1 / 10), py = round64 (1 / 5)\<rparr>"
  "imageTransform state_fraction = \<lparr>tx = 0, ty = 0, tscale = 2\<rparr>"
  "domCache_dropzone state_fraction = None"
  "dropZoneWidth state_fraction = 800"
  "dropZoneHeight state_fraction = 600"
  by (simp_all add: state_fraction_def ImageOverlayState_simps)

text \<open>
  Claim C2 as stated fails in binary64. An image of 400 by 300 at the base position
  \<open>(0.1, 0.2)\<close> and scale 2 in the dropzone of 800 by 600: the centre \<open>0.1 + 200\<close> and
  the difference \<open>800 - center\<close> are rounded, and the computed \<open>minX\<close>
  (\<open>199.90000000000000568...\<close>) is one unit in the last place above the computed \<open>maxX\<close>
  (\<open>199.89999999999997726...\<close>).
\<close>

theorem calculateImageBounds_rounded_counterexample:
  "minX (calculateImageBounds_rounded round64 dom_example state_fraction)
     = 7033355980557517 / 35184372088832
   \<and> maxX (calculateImageBounds_rounded round64 dom_example state_fraction)
     = 7033355980557516 / 35184372088832
   \<and> maxX (calculateImageBounds_rounded round64 dom_example state_fraction)
     < minX (calculateImageBounds_rounded round64 dom_example state_fraction)"
proof -
  have r: "calculateImageBounds_rounded round64 dom_example state_fraction =
     \<lparr>minX = 7033355980557517 / 35184372088832, maxX = 7033355980557516 / 35184372088832,
      minY = minY (calculateImageBounds_rounded round64 dom_example state_fraction),
      maxY = maxY (calculateImageBounds_rounded round64 dom_example state_fraction)\<rparr>"
    by (rule bounds.equality)
       (simp_all add: calculateImageBounds_rounded_regular [where img = img_example
          and dropzone = dropzone_example] dom_example_simps state_fraction_simps
          element_example_simps js_or_def Let_def round64_examples round64_tenth
          round64_fraction_steps)
  show ?thesis by (subst r, subst r, subst r, subst r) simp
qed


lemma rounded_axis_sums:
  assumes "list_all (\<lambda>v. rnd v = v) (axisSums C S W)"
  shows "rnd (rnd (min 0 (- rnd (S - W)) - C) + rnd (S / 2)) = min 0 (- (S - W)) - C + S / 2"
    and "rnd (rnd (max W S - C) - rnd (S / 2)) = max W S - C - S / 2"
proof -
  from assms have e:
    "rnd (S / 2) = S / 2"
    "rnd (S - W) = S - W"
    "rnd (min 0 (- (S - W)) - C) = min 0 (- (S - W)) - C"
    "rnd (min 0 (- (S - W)) - C + S / 2) = min 0 (- (S - W)) - C + S / 2"
    "rnd (max W S - C) = max W S - C"
    "rnd (max W S - C - S / 2) = max W S - C - S / 2"
    unfolding axisSums_def Let_def by (simp_all only: list.pred_inject)
  show "rnd (rnd (min 0 (- rnd (S - W)) - C) + rnd (S / 2)) = min 0 (- (S - W)) - C + S / 2"
    by (simp only: e)
  show "rnd (rnd (max W S - C) - rnd (S / 2)) = max W S - C - S / 2"
    by (simp only: e)
qed

lemma calculateImageBounds_rounded_sums:
  assumes img: "overlayImage d = Some img"
    and dz: "(case domCache_dropzone st of Some c \<Rightarrow> Some c | None \<Rightarrow> imageDropzone d)
               = Some dropzone"
    and nz: "js_or (width (displayDimensions st)) (offsetWidth img) \<noteq> 0"
      "js_or (height (displayDimensions st)) (offsetHeight img) \<noteq> 0"
    and C: "Cx = rnd (px (basePosition st)
                      + rnd (js_or (width (displayDimensions st)) (offsetWidth img) / 2))"
      "Cy = rnd (py (basePosition st)
                  + rnd (js_or (height (displayDimensions st)) (offsetHeight img) / 2))"
    and S: "Sx = rnd (js_or (width (displayDimensions st)) (offsetWidth img)
                       * tscale (imageTransform st))"
      "Sy = rnd (js_or (height (displayDimensions st)) (offsetHeight img)
                  * tscale (imageTransform st))"
    and W: "W = js_or (offsetWidth dropzone) (dropZoneWidth st)"
    and V: "V = js_or (offsetHeight dropzone) (dropZoneHeight st)"
    and ex: "list_all (\<lambda>v. rnd v = v) (axisSums Cx Sx W)"
    and ey: "list_all (\<lambda>v. rnd v = v) (axisSums Cy Sy V)"
  shows "calculateImageBounds_rounded rnd d st =
           \<lparr>minX = min 0 (- (Sx - W)) - Cx + Sx / 2, maxX = max W Sx - Cx - Sx / 2,
            minY = min 0 (- (Sy - V)) - Cy + Sy / 2, maxY = max V Sy - Cy - Sy / 2\<rparr>"
  unfolding calculateImageBounds_rounded_regular [OF img dz nz] Let_def
    C [symmetric] S [symmetric] W [symmetric] V [symmetric]
    rounded_axis_sums [OF ex] rounded_axis_sums [OF ey]
  by (rule refl)

text \<open>
  Claim C2, amended. Take the centre and the scaled size of the element as the code
  computes them, rounded or not. For every scale and all positive container and element
  sizes for which the sums and differences that form the bounds from them incur no
  rounding, the bounds are ordered, \<open>minX \<le> maxX\<close> and \<open>minY \<le> maxY\<close>, and on an axis
  where the scaled size is at most the container size, a translation at either end of
  the range keeps both edges of the element inside the container. The rounding is any
  function \<open>rnd\<close>, \<open>round64\<close> among them; in the counterexample it is the difference
  \<open>800 - center\<close> that is rounded.
\<close>

theorem calculateImageBounds_rounded_ordered_contained:
  assumes img: "overlayImage d = Some img"
    and dz: "(case domCache_dropzone st of Some c \<Rightarrow> Some c | None \<Rightarrow> imageDropzone d)
               = Some dropzone"
    and dw: "dw = js_or (width (displayDimensions st)) (offsetWidth img)"
    and dh: "dh = js_or (height (displayDimensions st)) (offsetHeight img)"
    and W: "W = js_or (offsetWidth dropzone) (dropZoneWidth st)"
    and V: "V = js_or (offsetHeight dropzone) (dropZoneHeight st)"
    and pos: "0 < dw" "0 < dh" "0 < W" "0 < V"
    and C: "Cx = rnd (px (basePosition st) + rnd (dw / 2))"
      "Cy = rnd (py (basePosition st) + rnd (dh / 2))"
    and S: "Sx = rnd (dw * tscale (imageTransform st))"
      "Sy = rnd (dh * tscale (imageTransform st))"
    and exactX: "list_all (\<lambda>v. rnd v = v) (axisSums Cx Sx W)"
    and exactY: "list_all (\<lambda>v. rnd v = v) (axisSums Cy Sy V)"
    and b: "b = calculateImageBounds_rounded rnd d st"
  shows "minX b \<le> maxX b \<and> minY b \<le> maxY b
       \<and> (Sx \<le> W \<longrightarrow> (\<forall>t \<in> {minX b, maxX b}. 0 \<le> nearEdge Cx t Sx \<and> farEdge Cx t Sx \<le> W))
       \<and> (Sy \<le> V \<longrightarrow> (\<forall>t \<in> {minY b, maxY b}. 0 \<le> nearEdge Cy t Sy \<and> farEdge Cy t Sy \<le> V))"
proof -
  have nz: "js_or (width (displayDimensions st)) (offsetWidth img) \<noteq> 0"
    "js_or (height (displayDimensions st)) (offsetHeight img) \<noteq> 0"
    using pos dw dh by auto
  have r: "b = \<lparr>minX = min 0 (- (Sx - W)) - Cx + Sx / 2, maxX = max W Sx - Cx - Sx / 2,
                minY = min 0 (- (Sy - V)) - Cy + Sy / 2, maxY = max V Sy - Cy - Sy / 2\<rparr>"
    unfolding b
    by (rule calculateImageBounds_rounded_sums [OF img dz nz C [unfolded dw dh]
          S [unfolded dw dh] W V exactX exactY])
  have xb: "minX b = min 0 (- (Sx - W)) - Cx + Sx / 2" "maxX b = max W Sx - Cx - Sx / 2"
    and yb: "minY b = min 0 (- (Sy - V)) - Cy + Sy / 2" "maxY b = max V Sy - Cy - Sy / 2"
    by (simp_all add: r)
  have ox: "minX b \<le> maxX b" unfolding xb by (rule axis_ordered)
  have oy: "minY b \<le> maxY b" unfolding yb by (rule axis_ordered)
  have cx: "\<forall>t \<in> {minX b, maxX b}. 0 \<le> nearEdge Cx t Sx \<and> farEdge Cx t Sx \<le> W" if "Sx \<le> W"
    unfolding xb using axis_contained [OF that, of Cx] that by simp
  have cy: "\<forall>t \<in> {minY b, maxY b}. 0 \<le> nearEdge Cy t Sy \<and> farEdge Cy t Sy \<le> V" if "Sy \<le> V"
    unfolding yb using axis_contained [OF that, of Cy] that by simp
  from ox oy cx cy show ?thesis by blast
qed

lemma state_zoomed_binary64_simps:
  "displayDimensions state_zoomed_binary64 = \<lparr>width = 400, height = 300\<rparr>"
  "basePosition state_zoomed_binary64 = \<lparr>px = 200, py = 150\<rparr>"
  "imageTransform state_zoomed_binary64 = \<lparr>tx = 0, ty = 0, tscale = round64 (11 / 10)\<rparr>"
  "domCache_dropzone state_zoomed_binary64 = None"
  "dropZoneWidth state_zoomed_binary64 = 800"
  "dropZoneHeight state_zoomed_binary64 = 600"
  by (simp_all add: state_zoomed_binary64_def ImageOverlayState_simps)

lemma round64_zoom_steps:
  "round64 (11 / 10) = 2476979795053773 / 2251799813685248"
  "round64 (61924494876344325 / 140737488355328) = 7740561859543041 / 17592186044416"
  "round64 (185773484629032975 / 562949953421312) = 330"
  "round64 (7740561859543041 / 35184372088832) = 7740561859543041 / 35184372088832"
  "round64 (- (6333186975989759 / 17592186044416)) = - (6333186975989759 / 17592186044416)"
  "round64 (- (6333186975989759 / 35184372088832)) = - (6333186975989759 / 35184372088832)"
  "round64 (6333186975989759 / 35184372088832) = 6333186975989759 / 35184372088832"
  "round64 165 = 165" "round64 (- 270) = - 270" "round64 (- 135) = - 135"
  "round64 135 = 135"
proof -
  have "round64 (11 / 10) = of_int 4953959590107546 / 2 ^ 52"
    by (rule round64_eval [where y = "24769797950537728 / 5"])
       (simp_all add: round_half_even_def)
  then show "round64 (11 / 10) = 2476979795053773 / 2251799813685248" by simp
  have "round64 (61924494876344325 / 140737488355328) = of_int 7740561859543041 / 2 ^ 44"
    by (rule round64_eval [where y = "61924494876344325 / 8"])
       (simp_all add: round_half_even_def)
  then show "round64 (61924494876344325 / 140737488355328)
               = 7740561859543041 / 17592186044416" by simp
  have "round64 (185773484629032975 / 562949953421312) = of_int 5805421394657280 / 2 ^ 44"
    by (rule round64_eval [where y = "185773484629032975 / 32"])
       (simp_all add: round_half_even_def)
  then show "round64 (185773484629032975 / 562949953421312) = 330" by simp
  show "round64 (7740561859543041 / 35184372088832) = 7740561859543041 / 35184372088832"
    by (rule round64_exact [where k = 45 and n = 7740561859543041]) simp_all
  show "round64 (- (6333186975989759 / 17592186044416))
          = - (6333186975989759 / 17592186044416)"
    by (rule round64_exact [where k = 44 and n = "- 6333186975989759"]) simp_all
  show "round64 (- (6333186975989759 / 35184372088832))
          = - (6333186975989759 / 35184372088832)"
    by (rule round64_exact [where k = 45 and n = "- 6333186975989759"]) simp_all
  show "round64 (6333186975989759 / 35184372088832) = 6333186975989759 / 35184372088832"
    by (rule round64_exact [where k = 45 and n = 6333186975989759]) simp_all
  show "round64 165 = 165"
    by (rule round64_exact [where k = 45 and n = 5805421394657280]) simp_all
  show "round64 (- 270) = - 270"
    by (rule round64_exact [where k = 44 and n = "- 4749890231992320"]) simp_all
  show "round64 (- 135) = - 135"
    by (rule round64_exact [where k = 45 and n = "- 4749890231992320"]) simp_all
  show "round64 135 = 135"
    by (rule round64_exact [where k = 45 and n = 4749890231992320]) simp_all
qed

lemma zoomed_hyps:
  "(case domCache_dropzone state_zoomed_binary64 of Some c \<Rightarrow> Some c
    | None \<Rightarrow> imageDropzone dom_example) = Some dropzone_example"
  "400 = js_or (width (displayDimensions state_zoomed_binary64)) (offsetWidth img_example)"
  "300 = js_or (height (displayDimensions state_zoomed_binary64)) (offsetHeight img_example)"
  "800 = js_or (offsetWidth dropzone_example) (dropZoneWidth state_zoomed_binary64)"
  "600 = js_or (offsetHeight dropzone_example) (dropZoneHeight state_zoomed_binary64)"
  "400 = round64 (px (basePosition state_zoomed_binary64) + round64 (400 / 2))"
  "300 = round64 (py (basePosition state_zoomed_binary64) + round64 (300 / 2))"
  "7740561859543041 / 17592186044416
     = round64 (400 * tscale (imageTransform state_zoomed_binary64))"
  "330 = round64 (300 * tscale (imageTransform state_zoomed_binary64))"
  "list_all (\<lambda>v. round64 v = v) (axisSums 400 (7740561859543041 / 17592186044416) 800)"
  "list_all (\<lambda>v. round64 v = v) (axisSums 300 330 600)"
  by (simp_all add: dom_example_simps state_zoomed_binary64_simps element_example_simps
      js_or_def axisSums_def round64_examples round64_zoom_steps)

lemma zoomed_computed:
  "400 = round64 (px (basePosition state_zoomed_binary64)
            + round64 (js_or (width (displayDimensions state_zoomed_binary64))
                         (offsetWidth img_example) / 2))"
  "300 = round64 (py (basePosition state_zoomed_binary64)
            + round64 (js_or (height (displayDimensions state_zoomed_binary64))
                         (offsetHeight img_example) / 2))"
  "7740561859543041 / 17592186044416
     = round64 (js_or (width (displayDimensions state_zoomed_binary64))
                  (offsetWidth img_example) * tscale (imageTransform state_zoomed_binary64))"
  "330 = round64 (js_or (height (displayDimensions state_zoomed_binary64))
                    (offsetHeight img_example) * tscale (imageTransform state_zoomed_binary64))"
  by (simp_all add: state_zoomed_binary64_simps js_or_def round64_examples
      round64_zoom_steps)

text \<open>
  The image of 400 by 300 at (200, 150) at the binary64 scale nearest to 1.1: the scaled
  width is rounded to \<open>440.00000000000006\<close>, the sums and differences that follow are
  exact, and the range of the translation reaches from the left border of the dropzone
  to the right one.
\<close>

theorem calculateImageBounds_rounded_ordered_contained_witness:
  "tscale (imageTransform state_zoomed_binary64) = 2476979795053773 / 2251799813685248
   \<and> calculateImageBounds_rounded round64 dom_example state_zoomed_binary64
     = \<lparr>minX = - (6333186975989759 / 35184372088832),
        maxX = 6333186975989759 / 35184372088832, minY = - 135, maxY = 135\<rparr>
   \<and> (7740561859543041 / 17592186044416 :: real) \<le> 800 \<and> (330 :: real) \<le> 600
   \<and> nearEdge 400 (- (6333186975989759 / 35184372088832))
        (7740561859543041 / 17592186044416) = 0
   \<and> farEdge 400 (- (6333186975989759 / 35184372088832))
        (7740561859543041 / 17592186044416) = 7740561859543041 / 17592186044416
   \<and> nearEdge 400 (6333186975989759 / 35184372088832)
        (7740561859543041 / 17592186044416) = 6333186975989759 / 17592186044416
   \<and> farEdge 400 (6333186975989759 / 35184372088832)
        (7740561859543041 / 17592186044416) = 800
   \<and> nearEdge 300 (- 135) 330 = 0 \<and> farEdge 300 (- 135) 330 = 330
   \<and> nearEdge 300 135 330 = 270 \<and> farEdge 300 135 330 = 600"
proof -
  have pos: "(0::real) < 400" "(0::real) < 300" "(0::real) < 800" "(0::real) < 600"
    by simp_all
  have nz: "js_or (width (displayDimensions state_zoomed_binary64)) (offsetWidth img_example)
              \<noteq> 0"
    "js_or (height (displayDimensions state_zoomed_binary64)) (offsetHeight img_example) \<noteq> 0"
    by (simp_all add: state_zoomed_binary64_simps js_or_def)
  have b: "\<lparr>minX = - (6333186975989759 / 35184372088832),
            maxX = 6333186975989759 / 35184372088832, minY = - 135, maxY = 135\<rparr>
             = calculateImageBounds_rounded round64 dom_example state_zoomed_binary64"
    unfolding calculateImageBounds_rounded_sums [OF example_hyps(1) zoomed_hyps(1) nz
        zoomed_computed zoomed_hyps(4,5,10,11)]
    by simp
  from calculateImageBounds_rounded_ordered_contained [OF example_hyps(1)
      zoomed_hyps(1,2,3,4,5) pos zoomed_hyps(6,7,8,9,10,11) b]
  show ?thesis
    by (simp add: b [symmetric] nearEdge_def farEdge_def state_zoomed_binary64_simps
        round64_zoom_steps)
qed

section \<open>Chat scale, snapping and persistence\<close>

lemma wheel_event_simps:
  "ctrlKey wheel_chat_zoom_in" "\<not> metaKey wheel_chat_zoom_in"
  "deltaY wheel_chat_zoom_in = - 100"
  "\<not> ctrlKey wheel_image_zoom_in" "\<not> metaKey wheel_image_zoom_in"
  "deltaY wheel_image_zoom_in = - 100" "clientX wheel_image_zoom_in = 500"
  "clientY wheel_image_zoom_in = 300"
  by (simp_all add: wheel_chat_zoom_in_def wheel_image_zoom_in_def)

lemma setChatScale_simps:
  "chatTransform (setChatScale v st) = (chatTransform st)\<lparr>tscale := max (1 / 2) (min 2 v)\<rparr>"
  "isChatDraggingEnabled (setChatScale v st) = isChatDraggingEnabled st"
  by (simp_all add: setChatScale_def Let_def)

lemma wheel_chat:
  assumes "overlayImage d = Some img" and "ctrlKey e \<or> metaKey e"
    and "isChatDraggingEnabled st"
  shows "wheel e dropzone d selectedLayer st =
           st\<lparr>chatTransform := (chatTransform st)
                \<lparr>tscale := max ZOOM_MIN_SCALE (min ZOOM_MAX_SCALE
                     (tscale (chatTransform st) * (if deltaY e > 0 then 9 / 10 else 11 / 10)))\<rparr>\<rparr>"
  using assms by (simp add: wheel_def Let_def)

text \<open>
  Claim C3 as stated fails for the wheel: with the chat scale at 2 (set through the
  slider), one notch of the wheel with Ctrl held multiplies it by 1.1 and clamps the
  product to \<open>[ZOOM_MIN_SCALE, ZOOM_MAX_SCALE] = [0.1, 5]\<close>, which leaves 2.2.
\<close>

theorem chat_wheel_scale_counterexample:
  "\<not> (1 / 2 \<le> tscale (chatTransform (wheel wheel_chat_zoom_in dropzone_example dom_example
                      None (setChatScale 2 ImageOverlayState)))
      \<and> tscale (chatTransform (wheel wheel_chat_zoom_in dropzone_example dom_example
                      None (setChatScale 2 ImageOverlayState))) \<le> 2)"
  by (simp add: wheel_chat [where img = img_example] dom_example_simps wheel_event_simps
      setChatScale_simps ImageOverlayState_simps ZOOM_MIN_SCALE_def ZOOM_MAX_SCALE_def)

text \<open>
  Claim C3, amended. \<open>setChatScale\<close> clamps the chat scale to \<open>[0.5, 2.0]\<close>. The wheel
  with Ctrl or Meta held (an image element present, chat dragging enabled) clamps the
  chat scale to \<open>[0.1, 5.0]\<close>, the zoom limits shared with the image.
\<close>

theorem chat_scale_clamped:
  assumes "overlayImage d = Some img" and "ctrlKey e \<or> metaKey e"
    and "isChatDraggingEnabled st"
  shows "1 / 2 \<le> tscale (chatTransform (setChatScale v st))
       \<and> tscale (chatTransform (setChatScale v st)) \<le> 2
       \<and> 1 / 10 \<le> tscale (chatTransform (wheel e dropzone d selectedLayer st))
       \<and> tscale (chatTransform (wheel e dropzone d selectedLayer st)) \<le> 5"
  unfolding wheel_chat [OF assms]
  by (simp add: setChatScale_simps ZOOM_MIN_SCALE_def ZOOM_MAX_SCALE_def)

text \<open>
  The slider asked for 3 gives 2; one notch of the wheel from there gives 2.2.
\<close>

theorem chat_scale_clamped_witness:
  "tscale (chatTransform (setChatScale 3 ImageOverlayState)) = 2
   \<and> tscale (chatTransform (wheel wheel_chat_zoom_in dropzone_example dom_example None
                (setChatScale 3 ImageOverlayState))) = 11 / 5"
proof -
  have h: "overlayImage dom_example = Some img_example"
    "ctrlKey wheel_chat_zoom_in \<or> metaKey wheel_chat_zoom_in"
    "isChatDraggingEnabled (setChatScale 3 ImageOverlayState)"
    by (simp_all add: dom_example_simps wheel_event_simps setChatScale_simps
        ImageOverlayState_simps)
  have e: "tscale (chatTransform (wheel wheel_chat_zoom_in dropzone_example dom_example None
                (setChatScale 3 ImageOverlayState))) = 11 / 5"
    by (simp add: wheel_chat [OF h] wheel_event_simps setChatScale_simps
        ImageOverlayState_simps ZOOM_MIN_SCALE_def ZOOM_MAX_SCALE_def)
  from chat_scale_clamped [OF h, of 3 dropzone_example None] e
  show ?thesis by (simp add: setChatScale_simps ImageOverlayState_simps)
qed

lemma snap_axis:
  fixes x t a :: real
  assumes "0 < t"
  shows "\<bar>(if \<bar>x - a / 2\<bar> < t then a / 2
           else if \<bar>x - a\<bar> < t then a else if \<bar>x\<bar> < t then 0 else x) - x\<bar> < t"
  using assms by auto

text \<open>
  Claim C10. \<open>applySnapToEdge\<close> moves a position by less than \<open>snapThreshold\<close> on each
  axis, and with snapping disabled it returns the position as it is. The threshold is a
  field of the state that the source sets to 20 and never assigns again; the bound needs
  it positive.
\<close>

theorem applySnapToEdge_within_threshold:
  assumes "0 < snapThreshold st"
  shows "\<bar>px (applySnapToEdge d st x y) - x\<bar> < snapThreshold st
       \<and> \<bar>py (applySnapToEdge d st x y) - y\<bar> < snapThreshold st
       \<and> (\<not> snapEnabled st \<longrightarrow> applySnapToEdge d st x y = \<lparr>px = x, py = y\<rparr>)"
proof -
  have "\<bar>px (applySnapToEdge d st x y) - x\<bar> < snapThreshold st"
    using assms snap_axis [OF assms]
    by (simp add: applySnapToEdge_def Let_def split: option.split)
  moreover have "\<bar>py (applySnapToEdge d st x y) - y\<bar> < snapThreshold st"
    using assms snap_axis [OF assms]
    by (simp add: applySnapToEdge_def Let_def split: option.split)
  moreover have "\<not> snapEnabled st \<longrightarrow> applySnapToEdge d st x y = \<lparr>px = x, py = y\<rparr>"
    by (simp add: applySnapToEdge_def)
  ultimately show ?thesis by blast
qed

lemma applySnapToEdge_example:
  "applySnapToEdge dom_example (state_loaded 1) 5 565 = \<lparr>px = 0, py = 560\<rparr>"
  by (simp add: applySnapToEdge_def Let_def dom_example_simps state_loaded_simps
      element_example_simps)

text \<open>
  A chat block of 100 by 40 in the dropzone of 800 by 600: the position (5, 565) snaps
  to the left edge and to the bottom edge, (0, 560); with snapping disabled it stays.
\<close>

theorem applySnapToEdge_within_threshold_witness:
  "snapThreshold (state_loaded 1) = 20
   \<and> applySnapToEdge dom_example (state_loaded 1) 5 565 = \<lparr>px = 0, py = 560\<rparr>
   \<and> \<bar>0 - (5::real)\<bar> < 20 \<and> \<bar>560 - (565::real)\<bar> < 20
   \<and> \<not> snapEnabled state_snap_off
   \<and> applySnapToEdge dom_example state_snap_off 5 565 = \<lparr>px = 5, py = 565\<rparr>"
proof -
  have t: "0 < snapThreshold (state_loaded 1)" "0 < snapThreshold state_snap_off"
    by (simp_all add: state_snap_off_def state_loaded_simps)
  have off: "\<not> snapEnabled state_snap_off" by (simp add: state_snap_off_def)
  from applySnapToEdge_within_threshold [OF t(1), of dom_example 5 565]
    applySnapToEdge_within_threshold [OF t(2), of dom_example 5 565] off
  show ?thesis by (simp add: applySnapToEdge_example state_loaded_simps)
qed

text \<open>
  Claim C7. \<open>loadChatSettings\<close> changes at most the \<open>snapEnabled\<close> flag:
  \<open>chatTransform\<close> and \<open>lineTransforms\<close> (and every other field) are as before, whatever
  the storage returns and whatever the stored settings contain; a stored boolean
  \<open>snapEnabled\<close> becomes the flag.
\<close>

theorem loadChatSettings_only_snapEnabled:
  "(\<exists>flag. loadChatSettings parse rd st = st\<lparr>snapEnabled := flag\<rparr>)
   \<and> chatTransform (loadChatSettings parse rd st) = chatTransform st
   \<and> lineTransforms (loadChatSettings parse rd st) = lineTransforms st
   \<and> (rd = Item saved \<and> saved \<noteq> [] \<and> parse saved = Some (JObj kvs)
        \<and> jsonProperty ''snapEnabled'' kvs = Some (JBool flag)
      \<longrightarrow> loadChatSettings parse rd st = st\<lparr>snapEnabled := flag\<rparr>)"
proof -
  have same: "\<exists>flag. st = st\<lparr>snapEnabled := flag\<rparr>"
    by (rule exI [of _ "snapEnabled st"]) simp
  have "\<exists>flag. loadChatSettings parse rd st = st\<lparr>snapEnabled := flag\<rparr>"
    using same
    by (auto simp add: loadChatSettings_def
        split: storage_read.split option.split json.split)
  moreover from this obtain flag' where "loadChatSettings parse rd st = st\<lparr>snapEnabled := flag'\<rparr>"
    by blast
  then have "chatTransform (loadChatSettings parse rd st) = chatTransform st"
    "lineTransforms (loadChatSettings parse rd st) = lineTransforms st" by simp_all
  moreover have "rd = Item saved \<and> saved \<noteq> [] \<and> parse saved = Some (JObj kvs)
        \<and> jsonProperty ''snapEnabled'' kvs = Some (JBool flag)
      \<longrightarrow> loadChatSettings parse rd st = st\<lparr>snapEnabled := flag\<rparr>"
    by (simp add: loadChatSettings_def)
  ultimately show ?thesis by blast
qed

lemma jsonProperty_settings_example:
  "jsonProperty ''snapEnabled'' [(''chatTransform'', JObj [(''x'', JNum 120), (''y'', JNum 80), (''scale'', JNum 2)]),
           (''snapEnabled'', JBool False),
           (''lineTransforms'', JObj [(''0'', JObj [(''x'', JNum 5), (''y'', JNum 7)])])]
     = Some (JBool False)"
  by (simp add: jsonProperty_def)

text \<open>
  Stored settings that carry a chat transform, line transforms and
  \<open>snapEnabled = false\<close>: only the flag arrives in the state.
\<close>

theorem loadChatSettings_only_snapEnabled_witness:
  "loadChatSettings (\<lambda>text. Some settings_example) (Item ''saved'') ImageOverlayState
     = ImageOverlayState\<lparr>snapEnabled := False\<rparr>
   \<and> chatTransform (loadChatSettings (\<lambda>text. Some settings_example) (Item ''saved'')
        ImageOverlayState) = \<lparr>tx = 0, ty = 0, tscale = 1\<rparr>
   \<and> lineTransforms (loadChatSettings (\<lambda>text. Some settings_example) (Item ''saved'')
        ImageOverlayState) = Map.empty"
  using loadChatSettings_only_snapEnabled [of "\<lambda>text. Some settings_example" "Item ''saved''"
      ImageOverlayState "''saved''"
      "[(''chatTransform'', JObj [(''x'', JNum 120), (''y'', JNum 80), (''scale'', JNum 2)]),
           (''snapEnabled'', JBool False),
           (''lineTransforms'', JObj [(''0'', JObj [(''x'', JNum 5), (''y'', JNum 7)])])]"
      False]
  by (simp add: jsonProperty_settings_example settings_example_def ImageOverlayState_def DEFAULT_SCALE_def)

section \<open>Wheel zoom of the image\<close>

lemma wheel_image:
  assumes "overlayImage d = Some img" and "\<not> ctrlKey e" and "\<not> metaKey e"
    and "selectedLayer = None \<or> selectedLayer = Some [] \<or> datasetLayerId img = selectedLayer"
    and "isImageDraggingEnabled st"
  shows "wheel e dropzone d selectedLayer st =
     (let oldScale = tscale (imageTransform st);
          newScale = max 1 (min 5 (oldScale * (if deltaY e > 0 then 9 / 10 else 11 / 10)));
          mouseRelX = clientX e - rectLeft dropzone
                        - (px (basePosition st) + width (displayDimensions st) / 2)
                        - tx (imageTransform st);
          mouseRelY = clientY e - rectTop dropzone
                        - (py (basePosition st) + height (displayDimensions st) / 2)
                        - ty (imageTransform st)
      in st\<lparr>imageTransform :=
             \<lparr>tx = tx (imageTransform st) + mouseRelX * (oldScale - newScale),
              ty = ty (imageTransform st) + mouseRelY * (oldScale - newScale),
              tscale = newScale\<rparr>\<rparr>)"
  using assms
  by (auto simp add: wheel_def Let_def calculateMinScale_def ZOOM_MAX_SCALE_def)

lemma wheel_image_pointer_at_center:
  assumes "overlayImage d = Some img" and "\<not> ctrlKey e" and "\<not> metaKey e"
    and "selectedLayer = None \<or> selectedLayer = Some [] \<or> datasetLayerId img = selectedLayer"
    and "isImageDraggingEnabled st"
    and "clientX e - rectLeft dropzone
           = px (basePosition st) + width (displayDimensions st) / 2 + tx (imageTransform st)"
    and "clientY e - rectTop dropzone
           = py (basePosition st) + height (displayDimensions st) / 2 + ty (imageTransform st)"
  shows "tx (imageTransform (wheel e dropzone d selectedLayer st)) = tx (imageTransform st)"
    and "ty (imageTransform (wheel e dropzone d selectedLayer st)) = ty (imageTransform st)"
  using assms(6,7) unfolding wheel_image [OF assms(1-5)] by (simp_all add: Let_def)

lemma wheel_drift:
  fixes c t old new m :: real
  assumes "old \<noteq> 0"
  shows "drawnAt c (t + (m - c - t) * (old - new)) new (pointUnder c t old m) - m
           = (m - c - t) * (old - 1) * (old - new) / old"
  using assms by (simp add: drawnAt_def pointUnder_def field_simps)

lemma wheel_loaded_once:
  "wheel wheel_image_zoom_in dropzone_example dom_example None (state_loaded 1)
     = (state_loaded 1)\<lparr>imageTransform := \<lparr>tx = - 10, ty = 0, tscale = 11 / 10\<rparr>\<rparr>"
  by (simp add: wheel_image [where img = img_example] dom_example_simps wheel_event_simps
      state_loaded_simps element_example_simps Let_def)

lemma updateImageTransform_within:
  assumes "overlayImage d = Some img"
    and "1 \<le> tscale (imageTransform st)" and "tscale (imageTransform st) \<le> 5"
    and "minX (calculateImageBounds d st) \<le> tx (imageTransform st)"
    and "tx (imageTransform st) \<le> maxX (calculateImageBounds d st)"
    and "minY (calculateImageBounds d st) \<le> ty (imageTransform st)"
    and "ty (imageTransform st) \<le> maxY (calculateImageBounds d st)"
  shows "updateImageTransform d st = st"
proof -
  have s: "max 1 (min 5 (tscale (imageTransform st))) = tscale (imageTransform st)"
    using assms(2,3) by simp
  have x: "max (minX (calculateImageBounds d st)) (min (maxX (calculateImageBounds d st))
             (tx (imageTransform st))) = tx (imageTransform st)"
    using assms(4,5) by simp
  have y: "max (minY (calculateImageBounds d st)) (min (maxY (calculateImageBounds d st))
             (ty (imageTransform st))) = ty (imageTransform st)"
    using assms(6,7) by simp
  show ?thesis
    by (simp add: updateImageTransform_def assms(1) Let_def calculateMinScale_def s x y)
qed

lemma calculateImageBounds_moved:
  "calculateImageBounds dom_example ((state_loaded s0)\<lparr>imageTransform := \<lparr>tx = a, ty = b, tscale = s\<rparr>\<rparr>) =
     \<lparr>minX = min 0 (800 - 400 * s) - 400 + 200 * s, maxX = max 800 (400 * s) - 400 - 200 * s,
      minY = min 0 (600 - 300 * s) - 300 + 150 * s, maxY = max 600 (300 * s) - 300 - 150 * s\<rparr>"
  by (simp add: calculateImageBounds_regular [where img = img_example
        and dropzone = dropzone_example]
      dom_example_simps state_loaded_simps element_example_simps js_or_def)

lemma state_zoomed_once_eq:
  "state_zoomed_once
     = (state_loaded 1)\<lparr>imageTransform := \<lparr>tx = - 10, ty = 0, tscale = 11 / 10\<rparr>\<rparr>"
  unfolding state_zoomed_once_def wheel_loaded_once
  by (rule updateImageTransform_within [where img = img_example])
     (simp_all add: dom_example_simps calculateImageBounds_moved)

lemma wheel_loaded_twice:
  "wheel wheel_image_zoom_in dropzone_example dom_example None state_zoomed_once
     = (state_loaded 1)\<lparr>imageTransform := \<lparr>tx = - 221 / 10, ty = 0, tscale = 121 / 100\<rparr>\<rparr>"
  unfolding state_zoomed_once_eq
  by (simp add: wheel_image [where img = img_example] dom_example_simps wheel_event_simps
      state_loaded_simps element_example_simps Let_def)

lemma state_zoomed_twice_eq:
  "state_zoomed_twice
     = (state_loaded 1)\<lparr>imageTransform := \<lparr>tx = - 221 / 10, ty = 0, tscale = 121 / 100\<rparr>\<rparr>"
  unfolding state_zoomed_twice_def wheel_loaded_twice
  by (rule updateImageTransform_within [where img = img_example])
     (simp_all add: dom_example_simps calculateImageBounds_moved)

text \<open>
  Claim C8 on the code. The handler adds \<open>mouseRel * (oldScale - newScale)\<close> to the
  translation, where \<open>mouseRel\<close> is the pointer's offset from the translated centre on
  the screen, that is in already scaled pixels; the point of the image under the pointer
  is at \<open>mouseRel / oldScale\<close>. The update therefore keeps that point in place only
  from scale 1. An image of 400 by 300 at (200, 150), at scale 1, pointer at (500, 300),
  100 pixels right of the centre: the first notch of the wheel leaves the point under the
  pointer at 500; the second notch, from scale 1.1, draws it at 498.9. The frame
  callback changes neither state, both translations being inside the bounds.
\<close>

theorem wheel_zoom_second_notch_drifts:
  "imageTransform (state_loaded 1) = \<lparr>tx = 0, ty = 0, tscale = 1\<rparr>
   \<and> pointUnder 400 0 1 500 = 100
   \<and> imageTransform state_zoomed_once = \<lparr>tx = - 10, ty = 0, tscale = 11 / 10\<rparr>
   \<and> drawnAt 400 (- 10) (11 / 10) 100 = 500
   \<and> pointUnder 400 (- 10) (11 / 10) 500 = 100
   \<and> imageTransform state_zoomed_twice = \<lparr>tx = - 221 / 10, ty = 0, tscale = 121 / 100\<rparr>
   \<and> drawnAt 400 (- 221 / 10) (121 / 100) 100 = 4989 / 10
   \<and> drawnAt 400 (- 221 / 10) (121 / 100) 100 \<noteq> 500"
  by (simp add: state_zoomed_once_eq state_zoomed_twice_eq state_loaded_simps
      drawnAt_def pointUnder_def)

section \<open>Properties of the layer manager\<close>

lemma length_renumber [simp]: "length (renumber ls) = length ls"
  by (simp add: renumber_def)

lemma nth_renumber: "i < length ls \<Longrightarrow> renumber ls ! i = (ls ! i)\<lparr>zIndex := i\<rparr>"
  by (simp add: renumber_def nth_enumerate_eq)

lemma renumber_Nil_iff [simp]: "renumber ls = [] \<longleftrightarrow> ls = []"
  by (simp add: renumber_def enumerate_eq_zip)

lemma map_layer_id_renumber [simp]: "map layer_id (renumber ls) = map layer_id ls"
  by (rule nth_equalityI) (simp_all add: nth_renumber)

lemma map_layer_type_renumber [simp]: "map layer_type (renumber ls) = map layer_type ls"
  by (rule nth_equalityI) (simp_all add: nth_renumber)

lemma zIndexDense_renumber [simp]: "zIndexDense (renumber ls)"
  unfolding zIndexDense_def by (rule nth_equalityI) (simp_all add: nth_renumber)

lemma renumber_dense: "zIndexDense ls \<Longrightarrow> renumber ls = ls"
proof (rule nth_equalityI)
  fix i assume d: "zIndexDense ls" and i: "i < length (renumber ls)"
  then have "zIndex (ls ! i) = i"
    using nth_map [of i ls zIndex] by (simp add: zIndexDense_def)
  with i show "renumber ls ! i = ls ! i" by (simp add: nth_renumber)
qed simp

lemma layer_id_last_renumber:
  "ls \<noteq> [] \<Longrightarrow> layer_id (last (renumber ls)) = layer_id (last ls)"
  by (simp add: last_conv_nth nth_renumber)

lemma set_ids_renumber [simp]: "layer_id ` set (renumber ls) = layer_id ` set ls"
  using map_layer_id_renumber [of ls] by (metis list.set_map)

lemma findIndex_None: "findIndex P xs = None \<longleftrightarrow> (\<forall>x \<in> set xs. \<not> P x)"
  by (induction xs) auto

lemma findIndex_Some:
  "findIndex P xs = Some i \<longleftrightarrow> i < length xs \<and> P (xs ! i) \<and> (\<forall>j < i. \<not> P (xs ! j))"
proof (induction xs arbitrary: i)
  case Nil
  then show ?case by simp
next
  case (Cons x xs)
  show ?case
  proof (cases "P x")
    case True
    then show ?thesis by (cases i) auto
  next
    case False
    show ?thesis
    proof (cases i)
      case 0
      with False show ?thesis by auto
    next
      case (Suc k)
      have "(\<forall>j < Suc k. \<not> P ((x # xs) ! j)) \<longleftrightarrow> (\<forall>j < k. \<not> P (xs ! j))"
        using False by (auto simp add: less_Suc_eq_0_disj)
      with False Suc Cons.IH [of k] show ?thesis by auto
    qed
  qed
qed


lemma layers_notify [simp]:
  "layers (notifyLayerChange m) = layers m"
  "layers (notifySelectionChange m) = layers m"
  "selectedLayerId (notifyLayerChange m) = selectedLayerId m"
  "selectedLayerId (notifySelectionChange m) = selectedLayerId m"
  by (simp_all add: notifyLayerChange_def notifySelectionChange_def)

lemma layers_moveLayerUp:
  "layers (moveLayerUp i m) =
     (case findIndex (\<lambda>l. layer_id l = i) (layers m) of
        None \<Rightarrow> layers m
      | Some index \<Rightarrow>
          if Suc index \<ge> length (layers m) then layers m
          else renumber ((layers m)[index := layers m ! Suc index, Suc index := layers m ! index]))"
  by (simp add: moveLayerUp_def split: option.split)

lemma layers_moveLayerDown:
  "layers (moveLayerDown i m) =
     (case findIndex (\<lambda>l. layer_id l = i) (layers m) of
        None \<Rightarrow> layers m
      | Some index \<Rightarrow>
          if index \<le> 0 then layers m
          else renumber ((layers m)[index := layers m ! (index - 1),
                                    index - 1 := layers m ! index]))"
  by (simp add: moveLayerDown_def split: option.split)

lemma findIndex_after_up:
  assumes d: "distinct (map layer_id ls)"
    and f: "findIndex (\<lambda>l. layer_id l = i) ls = Some index"
    and n: "Suc index < length ls"
  shows "findIndex (\<lambda>l. layer_id l = i)
           (renumber (ls[index := ls ! Suc index, Suc index := ls ! index])) = Some (Suc index)"
proof -
  let ?sw = "ls[index := ls ! Suc index, Suc index := ls ! index]"
  from f have at: "layer_id (ls ! index) = i"
    and before: "\<forall>j < index. layer_id (ls ! j) \<noteq> i"
    by (simp_all add: findIndex_Some)
  have neq: "layer_id (ls ! Suc index) \<noteq> i"
  proof
    assume "layer_id (ls ! Suc index) = i"
    with at have "map layer_id ls ! Suc index = map layer_id ls ! index" using n by simp
    moreover have "Suc index < length (map layer_id ls)" "index < length (map layer_id ls)"
      using n by simp_all
    ultimately have "Suc index = index" using d by (simp only: nth_eq_iff_index_eq)
    then show False by simp
  qed
  have "layer_id (renumber ?sw ! Suc index) = i" using n at by (simp add: nth_renumber)
  moreover have "\<forall>j < Suc index. layer_id (renumber ?sw ! j) \<noteq> i"
  proof (intro allI impI)
    fix j assume j: "j < Suc index"
    show "layer_id (renumber ?sw ! j) \<noteq> i"
    proof (cases "j = index")
      case True
      with n neq show ?thesis by (simp add: nth_renumber)
    next
      case False
      with j have "j < index" by simp
      with n before show ?thesis by (simp add: nth_renumber)
    qed
  qed
  ultimately show ?thesis using n by (simp add: findIndex_Some)
qed

lemma swap_back:
  assumes "Suc index < length ls"
  shows "renumber ((renumber (ls[index := ls ! Suc index, Suc index := ls ! index]))
            [Suc index := renumber (ls[index := ls ! Suc index, Suc index := ls ! index]) ! index,
             index := renumber (ls[index := ls ! Suc index, Suc index := ls ! index]) ! Suc index])
         = renumber ls"
proof (rule nth_equalityI)
  show "length (renumber ((renumber (ls[index := ls ! Suc index, Suc index := ls ! index]))
            [Suc index := renumber (ls[index := ls ! Suc index, Suc index := ls ! index]) ! index,
             index := renumber (ls[index := ls ! Suc index, Suc index := ls ! index]) ! Suc index]))
        = length (renumber ls)" by simp
next
  fix j
  assume "j < length (renumber ((renumber (ls[index := ls ! Suc index, Suc index := ls ! index]))
            [Suc index := renumber (ls[index := ls ! Suc index, Suc index := ls ! index]) ! index,
             index := renumber (ls[index := ls ! Suc index, Suc index := ls ! index]) ! Suc index]))"
  then have j: "j < length ls" by simp
  consider "j = index" | "j = Suc index" | "j \<noteq> index" "j \<noteq> Suc index" by blast
  then show "renumber ((renumber (ls[index := ls ! Suc index, Suc index := ls ! index]))
            [Suc index := renumber (ls[index := ls ! Suc index, Suc index := ls ! index]) ! index,
             index := renumber (ls[index := ls ! Suc index, Suc index := ls ! index]) ! Suc index]) ! j
         = renumber ls ! j"
    using j assms by cases (simp_all add: nth_renumber nth_list_update)
qed

lemma up_down_layers:
  assumes d: "distinct (map layer_id (layers m))"
    and f: "findIndex (\<lambda>l. layer_id l = i) (layers m) = Some index"
    and n: "Suc index < length (layers m)"
  shows "layers (moveLayerDown i (moveLayerUp i m)) = renumber (layers m)"
proof -
  have up: "layers (moveLayerUp i m)
              = renumber ((layers m)[index := layers m ! Suc index, Suc index := layers m ! index])"
    using f n by (simp add: layers_moveLayerUp)
  have "layers (moveLayerDown i (moveLayerUp i m))
          = renumber ((layers (moveLayerUp i m))
              [Suc index := layers (moveLayerUp i m) ! index,
               index := layers (moveLayerUp i m) ! Suc index])"
    unfolding layers_moveLayerDown [of i "moveLayerUp i m"]
    using findIndex_after_up [OF d f n] by (simp add: up)
  then show ?thesis unfolding up by (simp only: swap_back [OF n])
qed

lemma single_layer_up_down:
  assumes f: "findIndex (\<lambda>l. layer_id l = i) (layers m) = Some 0"
    and n: "length (layers m) = 1"
  shows "moveLayerDown i (moveLayerUp i m) = m"
proof -
  have "moveLayerUp i m = m" using f n by (simp add: moveLayerUp_def)
  moreover have "moveLayerDown i m = m" using f by (simp add: moveLayerDown_def)
  ultimately show ?thesis by simp
qed

subsection \<open>The zIndex invariant\<close>

lemma map_zIndex_updateFirst:
  "(\<And>l. zIndex (f l) = zIndex l) \<Longrightarrow> map zIndex (updateFirst P f ls) = map zIndex ls"
  by (induction ls) simp_all

lemma length_updateFirst [simp]: "length (updateFirst P f ls) = length ls"
  by (induction ls) simp_all

lemma zIndexDense_updateFirst:
  "(\<And>l. zIndex (f l) = zIndex l) \<Longrightarrow> zIndexDense ls \<Longrightarrow> zIndexDense (updateFirst P f ls)"
  by (simp add: zIndexDense_def map_zIndex_updateFirst)

lemma zIndex_assign:
  "(\<And>v. pv \<noteq> SetZIndex v) \<Longrightarrow> zIndex (assign pv l) = zIndex l"
  by (cases pv) auto

lemma createLayer_fields:
  "zIndex (fst (createLayer type options now m)) = length (layers m)"
  "layer_type (fst (createLayer type options now m)) = type"
  "layers (snd (createLayer type options now m)) = layers m"
  "selectedLayerId (snd (createLayer type options now m)) = selectedLayerId m"
  by (simp_all add: createLayer_def generateLayerId_def Let_def)

lemma zIndexDense_snoc:
  "zIndexDense ls \<Longrightarrow> zIndex l = length ls \<Longrightarrow> zIndexDense (ls @ [l])"
  by (simp add: zIndexDense_def)

lemma layers_addImageLayer:
  "layers (snd (addImageLayer src el name now m)) =
     layers m @ [fst (addImageLayer src el name now m)]"
  by (simp add: addImageLayer_def Let_def split_beta createLayer_fields)

lemma fst_addImageLayer:
  "zIndex (fst (addImageLayer src el name now m)) = length (layers m)"
  "layer_type (fst (addImageLayer src el name now m)) = Image"
  by (simp_all add: addImageLayer_def Let_def split_beta createLayer_fields)

lemma layers_addChatLayer:
  "layers (snd (addChatLayer now m)) =
     (case find (\<lambda>l. layer_type l = Chat) (layers m) of
        Some c \<Rightarrow> layers m
      | None \<Rightarrow> layers m @ [fst (addChatLayer now m)])"
  by (simp add: addChatLayer_def Let_def split_beta createLayer_fields split: option.split)

lemma fst_addChatLayer_new:
  assumes "find (\<lambda>l. layer_type l = Chat) (layers m) = None"
  shows "zIndex (fst (addChatLayer now m)) = length (layers m)"
    and "layer_type (fst (addChatLayer now m)) = Chat"
  using assms by (simp_all add: addChatLayer_def Let_def split_beta createLayer_fields)

lemma layers_removeLayer:
  "layers (removeLayer i m) =
     (case findIndex (\<lambda>l. layer_id l = i) (layers m) of
        None \<Rightarrow> layers m
      | Some index \<Rightarrow> renumber (take index (layers m) @ drop (Suc index) (layers m)))"
  by (simp add: removeLayer_def Let_def split: option.split)

lemma layers_simple_calls:
  "layers (selectLayer i m) = layers m"
  "layers (clearAll m) = []"
  "layers (updateLayerEffect i pv emitEvent m) =
     (case getLayer i m of None \<Rightarrow> layers m
      | Some l \<Rightarrow> if inLayer pv
                 then updateFirst (\<lambda>l. layer_id l = i) (assign pv) (layers m)
                 else layers m)"
  "layers (updateLayerTransform i p emitEvent m) =
     (case getLayer i m of None \<Rightarrow> layers m
      | Some l \<Rightarrow> updateFirst (\<lambda>l. layer_id l = i)
                   (\<lambda>l. l\<lparr>layer_transform := mergeTransform (layer_transform l) p\<rparr>) (layers m))"
  "layers (toggleLayerVisibility i m) =
     (case getLayer i m of None \<Rightarrow> layers m
      | Some l \<Rightarrow> updateFirst (\<lambda>l. layer_id l = i) (\<lambda>l. l\<lparr>visible := \<not> visible l\<rparr>) (layers m))"
  by (simp_all add: selectLayer_def clearAll_def updateLayerEffect_def
      updateLayerTransform_def toggleLayerVisibility_def Let_def split: option.split)

lemma zIndexDense_updateLayerEffect:
  assumes "\<And>v. pv \<noteq> SetZIndex v" and "zIndexDense (layers m)"
  shows "zIndexDense (layers (updateLayerEffect i pv emitEvent m))"
  using assms
  by (simp add: layers_simple_calls zIndexDense_updateFirst zIndex_assign split: option.split)

lemma setsZIndex_property: "\<not> setsZIndex c \<Longrightarrow> propertySet c \<noteq> SetZIndex v"
  by (auto split: property_value.splits)

lemma zIndexDense_call:
  assumes "\<not> setsZIndex c" and "zIndexDense (layers m)"
  shows "zIndexDense (layers (call c m))"
proof (cases c)
  case (AddImageLayer src el name now)
  with assms(2) show ?thesis
    by (simp add: layers_addImageLayer zIndexDense_snoc fst_addImageLayer)
next
  case (AddChatLayer now)
  with assms(2) show ?thesis
    by (simp add: layers_addChatLayer zIndexDense_snoc fst_addChatLayer_new
        split: option.split)
next
  case (RemoveLayer i)
  with assms(2) show ?thesis by (simp add: layers_removeLayer split: option.split)
next
  case (SelectLayer i)
  with assms(2) show ?thesis by (simp add: layers_simple_calls)
next
  case (UpdateLayerEffect i pv emitEvent)
  with setsZIndex_property [OF assms(1)] have "\<And>v. pv \<noteq> SetZIndex v" by simp
  from zIndexDense_updateLayerEffect [OF this assms(2)] UpdateLayerEffect
  show ?thesis by simp
next
  case (UpdateSelectedLayerEffect pv emitEvent)
  with setsZIndex_property [OF assms(1)] have "\<And>v. pv \<noteq> SetZIndex v" by simp
  from zIndexDense_updateLayerEffect [OF this assms(2)] assms(2) UpdateSelectedLayerEffect
  show ?thesis by (simp add: updateSelectedLayerEffect_def)
next
  case (UpdateLayerTransform i p emitEvent)
  with assms(2) show ?thesis
    by (simp add: layers_simple_calls zIndexDense_updateFirst split: option.split)
next
  case (ToggleLayerVisibility i)
  with assms(2) show ?thesis
    by (simp add: layers_simple_calls zIndexDense_updateFirst split: option.split)
next
  case (MoveLayerUp i)
  with assms(2) show ?thesis by (simp add: layers_moveLayerUp split: option.split)
next
  case (MoveLayerDown i)
  with assms(2) show ?thesis by (simp add: layers_moveLayerDown split: option.split)
next
  case ClearAll
  then show ?thesis by (simp add: layers_simple_calls zIndexDense_def)
qed

lemma zIndexDense_run:
  "list_all (\<lambda>c. \<not> setsZIndex c) cs \<Longrightarrow> zIndexDense (layers m)
     \<Longrightarrow> zIndexDense (layers (run cs m))"
  by (induction cs arbitrary: m) (simp_all add: zIndexDense_call del: setsZIndex.simps)

lemma isStackMutation_keeps:
  "isStackMutation c \<Longrightarrow> \<not> setsZIndex c"
  "isStackMutation c \<Longrightarrow> \<not> setsType c"
  "isStackMutation c \<Longrightarrow> \<not> setsId c"
  by (cases c; simp)+

lemma list_all_isStackMutation:
  "list_all isStackMutation cs \<Longrightarrow> list_all (\<lambda>c. \<not> setsZIndex c) cs"
  "list_all isStackMutation cs \<Longrightarrow> list_all (\<lambda>c. \<not> setsType c) cs"
  by (induction cs) (simp_all add: isStackMutation_keeps del: setsZIndex.simps setsType.simps)

lemma zIndexDense_initial: "zIndexDense (layers LayerManager)"
  by (simp add: LayerManager_def zIndexDense_def)


subsection \<open>At most one chat layer\<close>

lemma chatLayers_by_type:
  "length (chatLayers ls) = length (filter (\<lambda>t. t = Chat) (map layer_type ls))"
  by (simp add: chatLayers_def filter_map comp_def)

lemma chatLayers_same_types:
  "map layer_type ls = map layer_type ls' \<Longrightarrow> length (chatLayers ls) = length (chatLayers ls')"
  by (simp add: chatLayers_by_type)

lemma chatLayers_renumber [simp]: "length (chatLayers (renumber ls)) = length (chatLayers ls)"
  by (rule chatLayers_same_types) simp

lemma map_layer_type_updateFirst:
  "(\<And>l. layer_type (f l) = layer_type l)
     \<Longrightarrow> map layer_type (updateFirst P f ls) = map layer_type ls"
  by (induction ls) simp_all

lemma chatLayers_updateFirst:
  "(\<And>l. layer_type (f l) = layer_type l)
     \<Longrightarrow> length (chatLayers (updateFirst P f ls)) = length (chatLayers ls)"
  by (rule chatLayers_same_types) (simp add: map_layer_type_updateFirst)

lemma layer_type_assign:
  "(\<And>v. pv \<noteq> SetType v) \<Longrightarrow> layer_type (assign pv l) = layer_type l"
  by (cases pv) auto

lemma chatLayers_swap:
  assumes "a < length ls" and "b < length ls"
  shows "length (chatLayers (ls[a := ls ! b, b := ls ! a])) = length (chatLayers ls)"
proof -
  have e: "mset (ls[a := ls ! b, b := ls ! a]) = mset ls"
    using assms by (simp add: mset_swap)
  have "mset (chatLayers (ls[a := ls ! b, b := ls ! a])) = mset (chatLayers ls)"
    unfolding chatLayers_def mset_filter by (simp only: e)
  then show ?thesis by (rule mset_eq_length)
qed

lemma chatLayers_remove:
  assumes "index < length ls"
  shows "length (chatLayers (take index ls @ drop (Suc index) ls)) \<le> length (chatLayers ls)"
proof -
  have "ls = take index ls @ ls ! index # drop (Suc index) ls"
    using assms by (rule id_take_nth_drop)
  then have "chatLayers ls = chatLayers (take index ls @ ls ! index # drop (Suc index) ls)"
    by simp
  then show ?thesis by (simp add: chatLayers_def)
qed

lemma chatLayers_find_None:
  "find (\<lambda>l. layer_type l = Chat) ls = None \<Longrightarrow> chatLayers ls = []"
  by (simp add: chatLayers_def find_None_iff filter_empty_conv)

lemma chatLayers_updateLayerEffect:
  assumes "\<And>v. pv \<noteq> SetType v"
  shows "length (chatLayers (layers (updateLayerEffect i pv emitEvent m)))
           = length (chatLayers (layers m))"
  using assms
  by (simp add: layers_simple_calls chatLayers_updateFirst layer_type_assign
      split: option.split)

lemma setsType_property: "\<not> setsType c \<Longrightarrow> propertySet c \<noteq> SetType v"
  by (auto split: property_value.splits)

lemma chatLayers_call:
  assumes "length (chatLayers (layers m)) \<le> 1" and keeps: "\<not> setsType c"
  shows "length (chatLayers (layers (call c m))) \<le> 1"
proof (cases c)
  case (AddImageLayer src el name now)
  with assms show ?thesis
    by (simp add: layers_addImageLayer chatLayers_def fst_addImageLayer)
next
  case (AddChatLayer now)
  show ?thesis
  proof (cases "find (\<lambda>l. layer_type l = Chat) (layers m)")
    case None
    from chatLayers_find_None [OF None] fst_addChatLayer_new [OF None, of now]
    show ?thesis by (simp add: AddChatLayer layers_addChatLayer None chatLayers_def)
  next
    case (Some c')
    with assms show ?thesis by (simp add: AddChatLayer layers_addChatLayer)
  qed
next
  case (RemoveLayer i)
  show ?thesis
  proof (cases "findIndex (\<lambda>l. layer_id l = i) (layers m)")
    case None
    with assms show ?thesis by (simp add: RemoveLayer layers_removeLayer)
  next
    case (Some index)
    then have "index < length (layers m)" by (simp add: findIndex_Some)
    from chatLayers_remove [OF this] assms show ?thesis
      by (simp add: RemoveLayer layers_removeLayer Some)
  qed
next
  case (SelectLayer i)
  with assms show ?thesis by (simp add: layers_simple_calls)
next
  case (UpdateLayerEffect i pv emitEvent)
  with setsType_property [OF keeps] have "\<And>v. pv \<noteq> SetType v" by simp
  from chatLayers_updateLayerEffect [OF this] assms(1) UpdateLayerEffect
  show ?thesis by simp
next
  case (UpdateSelectedLayerEffect pv emitEvent)
  with setsType_property [OF keeps] have "\<And>v. pv \<noteq> SetType v" by simp
  from chatLayers_updateLayerEffect [OF this] assms(1) UpdateSelectedLayerEffect
  show ?thesis by (simp add: updateSelectedLayerEffect_def)
next
  case (UpdateLayerTransform i p emitEvent)
  with assms show ?thesis
    by (simp add: layers_simple_calls chatLayers_updateFirst split: option.split)
next
  case (ToggleLayerVisibility i)
  with assms show ?thesis
    by (simp add: layers_simple_calls chatLayers_updateFirst split: option.split)
next
  case (MoveLayerUp i)
  show ?thesis
  proof (cases "findIndex (\<lambda>l. layer_id l = i) (layers m)")
    case None
    with assms show ?thesis by (simp add: MoveLayerUp layers_moveLayerUp)
  next
    case (Some index)
    show ?thesis
    proof (cases "Suc index \<ge> length (layers m)")
      case True
      with assms Some show ?thesis by (simp add: MoveLayerUp layers_moveLayerUp)
    next
      case False
      then have "index < length (layers m)" "Suc index < length (layers m)" by simp_all
      from chatLayers_swap [OF this] assms False show ?thesis
        by (simp add: MoveLayerUp layers_moveLayerUp Some)
    qed
  qed
next
  case (MoveLayerDown i)
  show ?thesis
  proof (cases "findIndex (\<lambda>l. layer_id l = i) (layers m)")
    case None
    with assms show ?thesis by (simp add: MoveLayerDown layers_moveLayerDown)
  next
    case (Some index)
    show ?thesis
    proof (cases "index \<le> 0")
      case True
      with assms Some show ?thesis by (simp add: MoveLayerDown layers_moveLayerDown)
    next
      case False
      from Some have "index < length (layers m)" by (simp add: findIndex_Some)
      then have "index < length (layers m)" "index - 1 < length (layers m)" by simp_all
      from chatLayers_swap [OF this] assms False show ?thesis
        by (simp add: MoveLayerDown layers_moveLayerDown Some)
    qed
  qed
next
  case ClearAll
  then show ?thesis by (simp add: layers_simple_calls chatLayers_def)
qed

lemma chatLayers_run:
  "list_all (\<lambda>c. \<not> setsType c) cs \<Longrightarrow> length (chatLayers (layers m)) \<le> 1
     \<Longrightarrow> length (chatLayers (layers (run cs m))) \<le> 1"
proof (induction cs arbitrary: m)
  case Nil
  then show ?case by simp
next
  case (Cons c cs)
  from Cons.prems have k: "\<not> setsType c" and r: "list_all (\<lambda>c. \<not> setsType c) cs"
    by (simp_all del: setsType.simps)
  from Cons.prems(2) k have "length (chatLayers (layers (call c m))) \<le> 1"
    by (rule chatLayers_call)
  with r have "length (chatLayers (layers (run cs (call c m)))) \<le> 1" by (rule Cons.IH)
  then show ?case by simp
qed

lemma addChatLayer_existing:
  "find (\<lambda>l. layer_type l = Chat) (layers m) = Some c \<Longrightarrow> addChatLayer now m = (c, m)"
  by (simp add: addChatLayer_def)

lemma find_snoc_new:
  "find P ls = None \<Longrightarrow> P l \<Longrightarrow> find P (ls @ [l]) = Some l"
  by (induction ls) (simp_all split: if_splits)

lemma addChatLayer_twice:
  "addChatLayer now' (snd (addChatLayer now m)) = addChatLayer now m"
proof (cases "find (\<lambda>l. layer_type l = Chat) (layers m)")
  case None
  have "find (\<lambda>l. layer_type l = Chat) (layers (snd (addChatLayer now m)))
          = Some (fst (addChatLayer now m))"
    using fst_addChatLayer_new(2) [OF None, of now]
    by (simp add: layers_addChatLayer None find_snoc_new)
  from addChatLayer_existing [OF this] show ?thesis by simp
next
  case (Some c)
  then show ?thesis by (simp add: addChatLayer_existing)
qed


subsection \<open>The selection\<close>

lemma selectionValid_iff:
  "selectionValid m \<longleftrightarrow> (\<forall>i. selectedLayerId m = Some i \<longrightarrow> i \<in> layer_id ` set (layers m))"
  by (simp add: selectionValid_def split: option.split)

lemma map_layer_id_updateFirst:
  "(\<And>l. layer_id (f l) = layer_id l) \<Longrightarrow> map layer_id (updateFirst P f ls) = map layer_id ls"
  by (induction ls) simp_all

lemma set_ids_updateFirst:
  "(\<And>l. layer_id (f l) = layer_id l)
     \<Longrightarrow> layer_id ` set (updateFirst P f ls) = layer_id ` set ls"
  using map_layer_id_updateFirst [of f P ls] by (metis list.set_map)

lemma layer_id_assign:
  "(\<And>v. pv \<noteq> SetId v) \<Longrightarrow> layer_id (assign pv l) = layer_id l"
  by (cases pv) auto

lemma selected_simple_calls:
  "selectedLayerId (snd (addImageLayer src el name now m))
     = Some (layer_id (fst (addImageLayer src el name now m)))"
  "selectedLayerId (snd (addChatLayer now m)) = selectedLayerId m"
  "selectedLayerId (updateLayerEffect i pv emitEvent m) = selectedLayerId m"
  "selectedLayerId (updateLayerTransform i p emitEvent m) = selectedLayerId m"
  "selectedLayerId (toggleLayerVisibility i m) = selectedLayerId m"
  "selectedLayerId (moveLayerUp i m) = selectedLayerId m"
  "selectedLayerId (moveLayerDown i m) = selectedLayerId m"
  "selectedLayerId (clearAll m) = None"
  "selectedLayerId (selectLayer i m) =
     (case find (\<lambda>l. layer_id l = i) (layers m) of None \<Rightarrow> selectedLayerId m | Some l \<Rightarrow> Some i)"
  by (simp_all add: addImageLayer_def addChatLayer_def updateLayerEffect_def
      updateLayerTransform_def toggleLayerVisibility_def moveLayerUp_def moveLayerDown_def
      clearAll_def selectLayer_def Let_def split_beta createLayer_fields
      split: option.split)

lemma selected_removeLayer_missing:
  "findIndex (\<lambda>l. layer_id l = i) (layers m) = None
     \<Longrightarrow> selectedLayerId (removeLayer i m) = selectedLayerId m"
  by (simp add: removeLayer_def)

lemma selected_removeLayer_other:
  "selectedLayerId m \<noteq> Some i \<Longrightarrow> selectedLayerId (removeLayer i m) = selectedLayerId m"
  by (simp add: removeLayer_def Let_def split: option.split)

lemma selected_removeLayer_found:
  assumes "findIndex (\<lambda>l. layer_id l = i) (layers m) = Some index"
    and "selectedLayerId m = Some i"
  shows "selectedLayerId (removeLayer i m) =
           (if layers (removeLayer i m) = [] then None
            else Some (layer_id (last (layers (removeLayer i m)))))"
proof -
  define r where "r = renumber (take index (layers m) @ drop (Suc index) (layers m))"
  have l: "layers (removeLayer i m) = r"
    unfolding r_def by (simp add: layers_removeLayer assms)
  have "removeLayer i m =
          notifyLayerChange (notifySelectionChange
            (m\<lparr>layers := r,
               selectedLayerId := (if length r > 0 then Some (layer_id (last r)) else None)\<rparr>))"
    unfolding removeLayer_def r_def [symmetric] using assms
    by (simp add: Let_def r_def [symmetric])
  then have "selectedLayerId (removeLayer i m)
               = (if length r > 0 then Some (layer_id (last r)) else None)"
    by simp
  with l show ?thesis by simp
qed

lemma ids_swap:
  "a < length ls \<Longrightarrow> b < length ls
     \<Longrightarrow> layer_id ` set (ls[a := ls ! b, b := ls ! a]) = layer_id ` set ls"
  by (simp add: set_swap)

lemma ids_moveLayerUp: "layer_id ` set (layers (moveLayerUp i m)) = layer_id ` set (layers m)"
  by (simp add: layers_moveLayerUp ids_swap split: option.split)

lemma ids_moveLayerDown:
  "layer_id ` set (layers (moveLayerDown i m)) = layer_id ` set (layers m)"
proof (cases "findIndex (\<lambda>l. layer_id l = i) (layers m)")
  case None
  then show ?thesis by (simp add: layers_moveLayerDown)
next
  case (Some index)
  then have "index < length (layers m)" by (simp add: findIndex_Some)
  then have "index < length (layers m)" "index - 1 < length (layers m)" by simp_all
  from ids_swap [OF this] show ?thesis by (simp add: layers_moveLayerDown Some)
qed

lemma other_id_survives:
  assumes "index < length ls" and "layer_id (ls ! index) = i" and "j \<noteq> i"
    and "j \<in> layer_id ` set ls"
  shows "j \<in> layer_id ` set (take index ls @ drop (Suc index) ls)"
proof -
  have "ls = take index ls @ ls ! index # drop (Suc index) ls"
    using assms(1) by (rule id_take_nth_drop)
  then have "set ls = insert (ls ! index) (set (take index ls @ drop (Suc index) ls))"
    by (metis Un_insert_right list.simps(15) set_append)
  with assms(2,3,4) show ?thesis by auto
qed

lemma ids_updateLayerEffect:
  assumes "\<And>v. pv \<noteq> SetId v"
  shows "layer_id ` set (layers (updateLayerEffect i pv emitEvent m))
           = layer_id ` set (layers m)"
  using assms
  by (simp add: layers_simple_calls set_ids_updateFirst layer_id_assign split: option.split)

lemma setsId_property: "\<not> setsId c \<Longrightarrow> propertySet c \<noteq> SetId v"
  by (auto split: property_value.splits)

lemma selectionValid_call:
  assumes "selectionValid m" and keeps: "\<not> setsId c"
  shows "selectionValid (call c m)"
proof (cases c)
  case (AddImageLayer src el name now)
  then show ?thesis
    by (simp add: selectionValid_iff selected_simple_calls layers_addImageLayer)
next
  case (AddChatLayer now)
  with assms show ?thesis
    by (auto simp add: selectionValid_iff selected_simple_calls layers_addChatLayer
        split: option.splits)
next
  case (RemoveLayer i)
  show ?thesis
  proof (cases "findIndex (\<lambda>l. layer_id l = i) (layers m)")
    case None
    with assms show ?thesis
      by (simp add: RemoveLayer selectionValid_iff selected_removeLayer_missing
          layers_removeLayer split: option.splits)
  next
    case (Some index)
    then have ix: "index < length (layers m)" "layer_id (layers m ! index) = i"
      by (simp_all add: findIndex_Some)
    show ?thesis
    proof (cases "selectedLayerId m = Some i")
      case True
      from selected_removeLayer_found [OF Some True] show ?thesis
        by (simp add: RemoveLayer selectionValid_iff)
    next
      case False
      show ?thesis
      proof (cases "selectedLayerId m")
        case None
        with False show ?thesis
          by (simp add: RemoveLayer selectionValid_iff selected_removeLayer_other)
      next
        case (Some j)
        with False have "j \<noteq> i" by simp
        moreover from assms Some have "j \<in> layer_id ` set (layers m)"
          by (simp add: selectionValid_iff)
        ultimately have "j \<in> layer_id ` set (take index (layers m) @ drop (Suc index) (layers m))"
          using other_id_survives [OF ix] by blast
        with False Some \<open>findIndex (\<lambda>l. layer_id l = i) (layers m) = Some index\<close>
        show ?thesis
          by (simp add: RemoveLayer selectionValid_iff selected_removeLayer_other
              layers_removeLayer)
      qed
    qed
  qed
next
  case (SelectLayer i)
  show ?thesis
  proof (cases "find (\<lambda>l. layer_id l = i) (layers m)")
    case None
    with assms show ?thesis
      by (simp add: SelectLayer selectionValid_iff selected_simple_calls layers_simple_calls)
  next
    case (Some l)
    then have "i \<in> layer_id ` set (layers m)"
      by (auto simp add: find_Some_iff)
    with Some show ?thesis
      by (simp add: SelectLayer selectionValid_iff selected_simple_calls layers_simple_calls)
  qed
next
  case (UpdateLayerEffect i pv emitEvent)
  with setsId_property [OF keeps] have "\<And>v. pv \<noteq> SetId v" by simp
  from ids_updateLayerEffect [OF this] assms(1) UpdateLayerEffect
  show ?thesis by (simp add: selectionValid_iff selected_simple_calls)
next
  case (UpdateSelectedLayerEffect pv emitEvent)
  with setsId_property [OF keeps] have "\<And>v. pv \<noteq> SetId v" by simp
  from ids_updateLayerEffect [OF this] assms(1) UpdateSelectedLayerEffect
  show ?thesis
    by (simp add: selectionValid_iff selected_simple_calls updateSelectedLayerEffect_def)
next
  case (UpdateLayerTransform i p emitEvent)
  with assms show ?thesis
    by (simp add: selectionValid_iff selected_simple_calls layers_simple_calls
        set_ids_updateFirst split: option.split)
next
  case (ToggleLayerVisibility i)
  with assms show ?thesis
    by (simp add: selectionValid_iff selected_simple_calls layers_simple_calls
        set_ids_updateFirst split: option.split)
next
  case (MoveLayerUp i)
  with assms show ?thesis
    by (simp add: selectionValid_iff selected_simple_calls ids_moveLayerUp)
next
  case (MoveLayerDown i)
  with assms show ?thesis
    by (simp add: selectionValid_iff selected_simple_calls ids_moveLayerDown)
next
  case ClearAll
  then show ?thesis by (simp add: selectionValid_iff selected_simple_calls)
qed

lemma selectionValid_run:
  "list_all (\<lambda>c. \<not> setsId c) cs \<Longrightarrow> selectionValid m \<Longrightarrow> selectionValid (run cs m)"
proof (induction cs arbitrary: m)
  case Nil
  then show ?case by simp
next
  case (Cons c cs)
  from Cons.prems have k: "\<not> setsId c" and r: "list_all (\<lambda>c. \<not> setsId c) cs"
    by (simp_all del: setsId.simps)
  from Cons.prems(2) k have "selectionValid (call c m)" by (rule selectionValid_call)
  with r have "selectionValid (run cs (call c m))" by (rule Cons.IH)
  then show ?case by simp
qed

lemma selectionValid_reachable:
  "list_all (\<lambda>c. \<not> setsId c) cs \<Longrightarrow> selectionValid (run cs LayerManager)"
  by (erule selectionValid_run) (simp add: selectionValid_iff LayerManager_def)

subsection \<open>The claims about the stack\<close>

lemma layer_example_simps:
  "layer_id layer_a = ''layer_17_0''" "layer_id layer_b = ''layer_17_1''"
  "layer_id layer_chat = ''layer_18_2''"
  "layer_type layer_a = Image" "layer_type layer_b = Image" "layer_type layer_chat = Chat"
  "zIndex layer_a = 0" "zIndex layer_b = 1" "zIndex layer_chat = 1"
  by (simp_all add: layer_a_def layer_b_def layer_chat_def)

lemma manager_example_simps:
  "layers manager_ab = [layer_a, layer_b]" "selectedLayerId manager_ab = Some ''layer_17_1''"
  "layers manager_a = [layer_a]" "selectedLayerId manager_a = Some ''layer_17_0''"
  "layers manager_chat = [layer_a, layer_chat]"
  by (simp_all add: manager_ab_def manager_a_def manager_chat_def)

text \<open>
  Claim C4 as stated fails for the topmost layer of a stack of two: \<open>moveLayerUp\<close> does
  nothing at the top of the stack, and \<open>moveLayerDown\<close> then moves the layer below its
  neighbour.
\<close>

theorem moveLayerUp_Down_top_counterexample:
  "''layer_17_1'' \<in> layer_id ` set (layers manager_ab)
   \<and> map layer_id (layers manager_ab) = [''layer_17_0'', ''layer_17_1'']
   \<and> map layer_id (layers (moveLayerDown ''layer_17_1'' (moveLayerUp ''layer_17_1'' manager_ab)))
       = [''layer_17_1'', ''layer_17_0'']
   \<and> map layer_id (layers (moveLayerDown ''layer_17_1'' (moveLayerUp ''layer_17_1'' manager_ab)))
       \<noteq> map layer_id (layers manager_ab)"
proof -
  have up: "moveLayerUp ''layer_17_1'' manager_ab = manager_ab"
    by (simp add: moveLayerUp_def manager_example_simps layer_example_simps)
  have "map layer_id (layers (moveLayerDown ''layer_17_1'' manager_ab))
          = [''layer_17_1'', ''layer_17_0'']"
    by (simp add: layers_moveLayerDown manager_example_simps layer_example_simps
        )
  then show ?thesis by (simp add: up manager_example_simps layer_example_simps)
qed

text \<open>
  Claim C4, amended. In a stack whose layer ids are distinct, for the id of a layer that
  is not the topmost one (or is the only one), \<open>moveLayerUp\<close> followed by
  \<open>moveLayerDown\<close> on that id restores the stack order, and the whole stack when the
  zIndex values were dense. Every stack mutation (adding an image or chat layer,
  removing, moving up, moving down) keeps the zIndex values equal to the positions
  \<open>0, ..., N - 1\<close> in stack order, so they are after any run of stack mutations from the
  empty manager.
\<close>

theorem moveLayerUp_Down_restores:
  assumes "distinct (map layer_id (layers m))"
    and "findIndex (\<lambda>l. layer_id l = i) (layers m) = Some index"
    and "Suc index < length (layers m) \<or> length (layers m) = 1"
  shows "map layer_id (layers (moveLayerDown i (moveLayerUp i m))) = map layer_id (layers m)
       \<and> (zIndexDense (layers m) \<longrightarrow> layers (moveLayerDown i (moveLayerUp i m)) = layers m)
       \<and> (isStackMutation c \<and> zIndexDense (layers m) \<longrightarrow> zIndexDense (layers (call c m)))
       \<and> (list_all isStackMutation cs \<longrightarrow> zIndexDense (layers (run cs LayerManager)))"
proof -
  have order: "layers (moveLayerDown i (moveLayerUp i m)) = renumber (layers m)
                 \<or> layers (moveLayerDown i (moveLayerUp i m)) = layers m"
  proof (cases "Suc index < length (layers m)")
    case True
    from up_down_layers [OF assms(1,2) True] show ?thesis by simp
  next
    case False
    with assms(3) have one: "length (layers m) = 1" by simp
    with assms(2) have "index = 0" by (simp add: findIndex_Some)
    with assms(2) single_layer_up_down [OF _ one, of i] show ?thesis by simp
  qed
  then have "map layer_id (layers (moveLayerDown i (moveLayerUp i m))) = map layer_id (layers m)"
    by auto
  moreover have "zIndexDense (layers m)
                   \<longrightarrow> layers (moveLayerDown i (moveLayerUp i m)) = layers m"
    using order by (auto simp add: renumber_dense)
  moreover have "isStackMutation c \<and> zIndexDense (layers m)
                   \<longrightarrow> zIndexDense (layers (call c m))"
    using zIndexDense_call [of c m] isStackMutation_keeps(1) [of c] by blast
  moreover have "list_all isStackMutation cs \<longrightarrow> zIndexDense (layers (run cs LayerManager))"
    using zIndexDense_run [OF list_all_isStackMutation(1) zIndexDense_initial] by blast
  ultimately show ?thesis by blast
qed

text \<open>
  The bottom layer of a stack of two moved up and down again; a removal; a short run.
\<close>

theorem moveLayerUp_Down_restores_witness:
  "zIndexDense (layers manager_ab)
   \<and> layers (moveLayerDown ''layer_17_0'' (moveLayerUp ''layer_17_0'' manager_ab))
       = [layer_a, layer_b]
   \<and> zIndexDense (layers (call (RemoveLayer ''layer_17_0'') manager_ab))
   \<and> zIndexDense (layers (run [AddImageLayer ''data:a'' img_example None 17, AddChatLayer 18,
                                MoveLayerDown ''layer_18_1''] LayerManager))"
proof -
  have d: "distinct (map layer_id (layers manager_ab))"
    by (simp add: manager_example_simps layer_example_simps)
  have f: "findIndex (\<lambda>l. layer_id l = ''layer_17_0'') (layers manager_ab) = Some 0"
    by (simp add: manager_example_simps layer_example_simps)
  have n: "Suc 0 < length (layers manager_ab) \<or> length (layers manager_ab) = 1"
    by (simp add: manager_example_simps)
  have z: "zIndexDense (layers manager_ab)"
    by (simp add: zIndexDense_def manager_example_simps layer_example_simps)
  have c: "isStackMutation (RemoveLayer ''layer_17_0'')"
    "list_all isStackMutation [AddImageLayer ''data:a'' img_example None 17, AddChatLayer 18,
        MoveLayerDown ''layer_18_1'']"
    by simp_all
  from moveLayerUp_Down_restores [OF d f n, of "RemoveLayer ''layer_17_0''"
      "[AddImageLayer ''data:a'' img_example None 17, AddChatLayer 18,
        MoveLayerDown ''layer_18_1'']"] z c
  show ?thesis by (simp add: manager_example_simps)
qed

text \<open>
  Claim C5. After \<open>removeLayer\<close> of the selected layer (a layer of the stack), either
  the remaining stack is empty and nothing is selected, or the selection is the id of a
  layer of the remaining stack, namely of its topmost layer.
\<close>

theorem removeLayer_selected_reselects:
  assumes "selectedLayerId m = Some i" and "i \<in> layer_id ` set (layers m)"
  shows "(layers (removeLayer i m) = [] \<and> selectedLayerId (removeLayer i m) = None)
       \<or> (layers (removeLayer i m) \<noteq> []
          \<and> selectedLayerId (removeLayer i m)
              = Some (layer_id (last (layers (removeLayer i m))))
          \<and> (\<exists>l \<in> set (layers (removeLayer i m)).
                selectedLayerId (removeLayer i m) = Some (layer_id l)))"
proof -
  from assms(2) have "findIndex (\<lambda>l. layer_id l = i) (layers m) \<noteq> None"
    by (auto simp add: findIndex_None)
  then obtain index where "findIndex (\<lambda>l. layer_id l = i) (layers m) = Some index"
    by blast
  from selected_removeLayer_found [OF this assms(1)] show ?thesis
    by (cases "layers (removeLayer i m) = []") auto
qed

text \<open>
  Removing the selected top layer of two selects the remaining one; removing the only
  layer leaves no selection.
\<close>

theorem removeLayer_selected_reselects_witness:
  "layers (removeLayer ''layer_17_1'' manager_ab) = [layer_a]
   \<and> selectedLayerId (removeLayer ''layer_17_1'' manager_ab) = Some ''layer_17_0''
   \<and> layers (removeLayer ''layer_17_0'' manager_a) = []
   \<and> selectedLayerId (removeLayer ''layer_17_0'' manager_a) = None"
proof -
  have ab: "selectedLayerId manager_ab = Some ''layer_17_1''"
    "''layer_17_1'' \<in> layer_id ` set (layers manager_ab)"
    by (simp_all add: manager_example_simps layer_example_simps)
  have a: "selectedLayerId manager_a = Some ''layer_17_0''"
    "''layer_17_0'' \<in> layer_id ` set (layers manager_a)"
    by (simp_all add: manager_example_simps layer_example_simps)
  have lab: "layers (removeLayer ''layer_17_1'' manager_ab) = [layer_a]"
    by (simp add: layers_removeLayer manager_example_simps layer_example_simps renumber_def
        layer_a_def)
  have la: "layers (removeLayer ''layer_17_0'' manager_a) = []"
    by (simp add: layers_removeLayer manager_example_simps layer_example_simps renumber_def)
  from removeLayer_selected_reselects [OF ab] removeLayer_selected_reselects [OF a]
  show ?thesis by (simp add: lab la layer_example_simps)
qed

text \<open>
  Claim C6 as stated fails for runs that contain every layer operation:
  \<open>updateLayerEffect(id, 'type', 'chat')\<close> passes the guard \<open>property in layer\<close> and
  turns the image layer into a second chat layer; \<open>addChatLayer\<close> then returns the former
  image layer, the first layer of type chat in the stack.
\<close>

theorem updateLayerEffect_type_counterexample:
  "map layer_type (layers (run calls_retyping LayerManager)) = [Chat, Chat]
   \<and> length (chatLayers (layers (run calls_retyping LayerManager))) = 2
   \<and> layer_id (fst (addChatLayer 19 (run calls_retyping LayerManager))) = ''layer_17_0''"
proof -
  define m1 where "m1 = snd (addImageLayer ''data:a'' img_example None 17 LayerManager)"
  define l1 where "l1 = fst (addImageLayer ''data:a'' img_example None 17 LayerManager)"
  define m2 where "m2 = snd (addChatLayer 18 m1)"
  define l2 where "l2 = fst (addChatLayer 18 m1)"
  have id1: "layer_id l1 = ''layer_17_0''"
    by (simp add: l1_def addImageLayer_def createLayer_def generateLayerId_def Let_def
        LayerManager_def string_of_nat.simps)
  have t1: "layer_type l1 = Image" by (simp add: l1_def fst_addImageLayer)
  have ls1: "layers m1 = [l1]"
    by (simp add: m1_def l1_def layers_addImageLayer LayerManager_def)
  have none: "find (\<lambda>l. layer_type l = Chat) (layers m1) = None" by (simp add: ls1 t1)
  have t2: "layer_type l2 = Chat" unfolding l2_def by (rule fst_addChatLayer_new(2) [OF none])
  have ls2: "layers m2 = [l1, l2]"
    by (simp add: m2_def l2_def layers_addChatLayer ls1 t1)
  have ls3: "layers (updateLayerEffect ''layer_17_0'' (SetType Chat) True m2)
               = [l1\<lparr>layer_type := Chat\<rparr>, l2]"
    by (simp add: layers_simple_calls getLayer_def ls2 id1)
  have r: "run calls_retyping LayerManager
             = updateLayerEffect ''layer_17_0'' (SetType Chat) True m2"
    by (simp add: calls_retyping_def m2_def m1_def)
  have "find (\<lambda>l. layer_type l = Chat) (layers (run calls_retyping LayerManager))
          = Some (l1\<lparr>layer_type := Chat\<rparr>)"
    by (simp add: r ls3)
  from addChatLayer_existing [OF this] show ?thesis
    by (simp add: r ls3 chatLayers_def t2 id1)
qed

text \<open>
  Claim C6, amended. \<open>addChatLayer\<close> returns the existing chat layer and leaves the manager
  as it is when the stack has one; called a second time it returns the layer of the first
  call and changes nothing. Every call of the manager other than an \<open>updateLayerEffect\<close>
  (or \<open>updateSelectedLayerEffect\<close>) that assigns the property \<open>type\<close> keeps the number of
  chat layers at most one, so after any run of such calls from the empty manager the
  stack has at most one chat layer.
\<close>

theorem addChatLayer_idempotent:
  "(find (\<lambda>l. layer_type l = Chat) (layers m) = Some existingChat
      \<longrightarrow> addChatLayer now m = (existingChat, m))
   \<and> addChatLayer now' (snd (addChatLayer now m)) = addChatLayer now m
   \<and> (\<not> setsType c \<and> length (chatLayers (layers m)) \<le> 1
        \<longrightarrow> length (chatLayers (layers (call c m))) \<le> 1)
   \<and> (list_all (\<lambda>c. \<not> setsType c) cs
        \<longrightarrow> length (chatLayers (layers (run cs LayerManager))) \<le> 1)"
proof -
  have "find (\<lambda>l. layer_type l = Chat) (layers m) = Some existingChat
          \<longrightarrow> addChatLayer now m = (existingChat, m)"
    by (simp add: addChatLayer_existing)
  moreover have "addChatLayer now' (snd (addChatLayer now m)) = addChatLayer now m"
    by (rule addChatLayer_twice)
  moreover have "\<not> setsType c \<and> length (chatLayers (layers m)) \<le> 1
                   \<longrightarrow> length (chatLayers (layers (call c m))) \<le> 1"
    using chatLayers_call [of m c] by blast
  moreover have "list_all (\<lambda>c. \<not> setsType c) cs
                   \<longrightarrow> length (chatLayers (layers (run cs LayerManager))) \<le> 1"
  proof
    assume "list_all (\<lambda>c. \<not> setsType c) cs"
    then show "length (chatLayers (layers (run cs LayerManager))) \<le> 1"
      by (rule chatLayers_run) (simp add: LayerManager_def chatLayers_def)
  qed
  ultimately show ?thesis by blast
qed

text \<open>
  A stack of an image layer and a chat layer: \<open>addChatLayer\<close> returns the chat layer; an
  assignment of the opacity and a run of calls without an assignment of \<open>type\<close> keep
  the chat layer the only one.
\<close>

theorem addChatLayer_idempotent_witness:
  "find (\<lambda>l. layer_type l = Chat) (layers manager_chat) = Some layer_chat
   \<and> addChatLayer 19 manager_chat = (layer_chat, manager_chat)
   \<and> length (chatLayers (layers manager_chat)) = 1
   \<and> length (chatLayers (layers (call (UpdateLayerEffect ''layer_17_0'' (SetOpacity 50) True)
                                    manager_chat))) \<le> 1
   \<and> length (chatLayers (layers (run [AddChatLayer 17, AddChatLayer 18,
                                      UpdateSelectedLayerEffect (SetBlur 3) False,
                                      ToggleLayerVisibility ''layer_17_0'']
                                   LayerManager))) \<le> 1"
proof -
  have f: "find (\<lambda>l. layer_type l = Chat) (layers manager_chat) = Some layer_chat"
    by (simp add: manager_example_simps layer_example_simps)
  have n: "length (chatLayers (layers manager_chat)) = 1"
    by (simp add: chatLayers_def manager_example_simps layer_example_simps)
  have k: "\<not> setsType (UpdateLayerEffect ''layer_17_0'' (SetOpacity 50) True)"
    "list_all (\<lambda>c. \<not> setsType c) [AddChatLayer 17, AddChatLayer 18,
        UpdateSelectedLayerEffect (SetBlur 3) False, ToggleLayerVisibility ''layer_17_0'']"
    by simp_all
  from addChatLayer_idempotent [of manager_chat layer_chat 19 19
      "UpdateLayerEffect ''layer_17_0'' (SetOpacity 50) True"
      "[AddChatLayer 17, AddChatLayer 18, UpdateSelectedLayerEffect (SetBlur 3) False,
        ToggleLayerVisibility ''layer_17_0'']"] f n k
  show ?thesis by simp
qed

section \<open>Degenerate geometry and failures\<close>

lemma deref_Some [simp]: "deref (Some v) = Inr v"
  by (simp add: deref_def)

lemma bindE_Inr [simp]: "bindE (Inr v) f = f v"
  by (simp add: bindE_def)



















end
